theory Spec2Isabelle
  imports Main "HOL-Library.Sublist"
begin

section \<open>Python text\<close>

text \<open>
  A Python \<^verbatim>\<open>str\<close> is a sequence of Unicode code points. A code point is a natural
  number here, so that \<^verbatim>\<open>\s\<close>, \<^verbatim>\<open>strip()\<close> and \<^verbatim>\<open>split()\<close> see the same whitespace
  characters as Python does (the no-break space U+00A0 among them).
\<close>

type_synonym pystr = "nat list"

definition str :: "string \<Rightarrow> pystr" where
  "str s = map of_char s"

text \<open>The characters for which \<^verbatim>\<open>str.isspace\<close> holds; \<^verbatim>\<open>\s\<close> of \<^verbatim>\<open>re\<close> matches the same set.\<close>

definition isspace :: "nat \<Rightarrow> bool" where
  "isspace c \<longleftrightarrow>
     (9 \<le> c \<and> c \<le> 13) \<or> (28 \<le> c \<and> c \<le> 32) \<or> c = 133 \<or> c = 160 \<or> c = 5760 \<or>
     (8192 \<le> c \<and> c \<le> 8202) \<or> c = 8232 \<or> c = 8233 \<or> c = 8239 \<or> c = 8287 \<or> c = 12288"

text \<open>\<^verbatim>\<open>s.strip()\<close>: leading and trailing whitespace removed.\<close>

definition strip :: "pystr \<Rightarrow> pystr" where
  "strip s = rev (dropWhile isspace (rev (dropWhile isspace s)))"

text \<open>\<^verbatim>\<open>s.split()\<close>: the maximal runs of non-whitespace characters; \<open>w\<close> is the word being read.\<close>

fun split_from :: "pystr \<Rightarrow> pystr \<Rightarrow> pystr list" where
  "split_from w [] = (if w = [] then [] else [w])"
| "split_from w (c # cs) =
     (if isspace c then (if w = [] then [] else [w]) @ split_from [] cs
      else split_from (w @ [c]) cs)"

definition split :: "pystr \<Rightarrow> pystr list" where
  "split s = split_from [] s"

text \<open>\<^verbatim>\<open>sep.join(parts)\<close>.\<close>

fun join :: "pystr \<Rightarrow> pystr list \<Rightarrow> pystr" where
  "join sep [] = []"
| "join sep [p] = p"
| "join sep (p # q # ps) = p @ sep @ join sep (q # ps)"

text \<open>
  \<^verbatim>\<open>s.replace(old, new)\<close>: the occurrences of \<open>old\<close> are replaced from left to right,
  without overlap. With an empty \<open>old\<close> Python puts \<open>new\<close> around every character.
\<close>

function replace_from :: "pystr \<Rightarrow> pystr \<Rightarrow> pystr \<Rightarrow> pystr" where
  "replace_from old new s =
     (case s of
        [] \<Rightarrow> []
      | c # cs \<Rightarrow>
          if old \<noteq> [] \<and> prefix old s then new @ replace_from old new (drop (length old) s)
          else c # replace_from old new cs)"
  by pat_completeness auto
termination
  by (relation "measure (\<lambda>(old, new, s). length s)") auto

definition replace :: "pystr \<Rightarrow> pystr \<Rightarrow> pystr \<Rightarrow> pystr" where
  "replace s old new =
     (if old = [] then new @ concat (map (\<lambda>c. c # new) s) else replace_from old new s)"

text \<open>Decimal digits of a number, as \<^verbatim>\<open>str(n)\<close> and \<^verbatim>\<open>f"{n}"\<close> print it.\<close>

fun digits :: "nat \<Rightarrow> pystr" where
  "digits n = (if n < 10 then [48 + n] else digits (n div 10) @ [48 + n mod 10])"

section \<open>The fragment of Python's regular expressions that the source uses\<close>

text \<open>
  Every repetition in the source's patterns is over a single character class
  (\<^verbatim>\<open>\s+\<close>, \<^verbatim>\<open>\s*\<close>, \<^verbatim>\<open>.*?\<close>, \<^verbatim>\<open>[^"]*\<close>), so repetition takes a class.
\<close>

datatype flag = MULTILINE | DOTALL

datatype cls = Space | AnyChar | NoneOf pystr

datatype rx =
    Lit pystr
  | Star cls
  | Plus cls
  | LazyStar cls
  | Bol
  | Eol
  | Seq rx rx
  | Alt rx rx

fun cls_match :: "flag list \<Rightarrow> cls \<Rightarrow> nat \<Rightarrow> bool" where
  "cls_match fl Space c = isspace c"
| "cls_match fl AnyChar c = (DOTALL \<in> set fl \<or> c \<noteq> 10)"
| "cls_match fl (NoneOf xs) c = (c \<notin> set xs)"

text \<open>
  A backtracking matcher tries the alternatives of a pattern in a fixed order and takes
  the first that leads to a match. \<open>ends fl r prev rest\<close> lists, in that order, the
  number of characters that \<open>r\<close> can consume at the head of \<open>rest\<close>; \<open>prev\<close> is the
  character before \<open>rest\<close> in the subject (\<open>None\<close> at its start), which \<^verbatim>\<open>^\<close> looks at.
  A greedy repetition tries the longest run first, a lazy one the shortest.
\<close>

fun greedy :: "(nat \<Rightarrow> bool) \<Rightarrow> pystr \<Rightarrow> nat list" where
  "greedy p [] = [0]"
| "greedy p (c # cs) = (if p c then map Suc (greedy p cs) @ [0] else [0])"

fun lazy :: "(nat \<Rightarrow> bool) \<Rightarrow> pystr \<Rightarrow> nat list" where
  "lazy p [] = [0]"
| "lazy p (c # cs) = (if p c then 0 # map Suc (lazy p cs) else [0])"

definition before :: "nat option \<Rightarrow> pystr \<Rightarrow> nat option" where
  "before prev consumed = (case consumed of [] \<Rightarrow> prev | _ # _ \<Rightarrow> Some (last consumed))"

fun ends :: "flag list \<Rightarrow> rx \<Rightarrow> nat option \<Rightarrow> pystr \<Rightarrow> nat list" where
  "ends fl (Lit w) prev rest = (if prefix w rest then [length w] else [])"
| "ends fl (Star c) prev rest = greedy (cls_match fl c) rest"
| "ends fl (Plus c) prev rest = filter (\<lambda>n. 0 < n) (greedy (cls_match fl c) rest)"
| "ends fl (LazyStar c) prev rest = lazy (cls_match fl c) rest"
| "ends fl Bol prev rest =
     (if prev = None \<or> (MULTILINE \<in> set fl \<and> prev = Some 10) then [0] else [])"
| "ends fl Eol prev rest =
     (case rest of
        [] \<Rightarrow> [0]
      | c # cs \<Rightarrow> if c = 10 \<and> (MULTILINE \<in> set fl \<or> cs = []) then [0] else [])"
| "ends fl (Seq a b) prev rest =
     concat (map (\<lambda>n. map (\<lambda>m. n + m) (ends fl b (before prev (take n rest)) (drop n rest)))
                 (ends fl a prev rest))"
| "ends fl (Alt a b) prev rest = ends fl a prev rest @ ends fl b prev rest"

text \<open>
  \<^verbatim>\<open>re.sub(pattern, repl, string, flags)\<close>: from left to right, the first match at the
  leftmost position is replaced and the search goes on behind it; a character at which
  nothing matches is copied. After an empty match the next character is copied.
\<close>

function sub_from :: "flag list \<Rightarrow> rx \<Rightarrow> pystr \<Rightarrow> nat option \<Rightarrow> pystr \<Rightarrow> pystr" where
  "sub_from fl r repl prev rest =
     (case ends fl r prev rest of
        [] \<Rightarrow> (case rest of [] \<Rightarrow> [] | c # cs \<Rightarrow> c # sub_from fl r repl (Some c) cs)
      | n # _ \<Rightarrow>
          repl @
          (if 0 < n \<and> n \<le> length rest
           then sub_from fl r repl (Some (last (take n rest))) (drop n rest)
           else (case rest of [] \<Rightarrow> [] | c # cs \<Rightarrow> c # sub_from fl r repl (Some c) cs)))"
  by pat_completeness auto
termination
  by (relation "measure (\<lambda>(fl, r, repl, prev, rest). length rest)") auto

definition re_sub :: "rx \<Rightarrow> pystr \<Rightarrow> pystr \<Rightarrow> flag list \<Rightarrow> pystr" where
  "re_sub pattern repl string flags = sub_from flags pattern repl None string"

text \<open>A pattern written as the sequence of its parts.\<close>

fun seq :: "rx list \<Rightarrow> rx" where
  "seq [] = Lit []"
| "seq [r] = r"
| "seq (r # rs) = Seq r (seq rs)"

section \<open>\<^verbatim>\<open>NewsTextExtractor._clean_text\<close>\<close>

text \<open>
  The method is one chain of assignments to \<^verbatim>\<open>text\<close>. Each group of lines under one
  comment of the source is one definition here, under the name of that comment, and
  \<open>clean_text\<close> composes them in the order of the source.
\<close>

text \<open>\<^verbatim>\<open># Remove HTML entities\<close>\<close>

definition remove_html_entities :: "pystr \<Rightarrow> pystr" where
  "remove_html_entities text0 =
     (let text = replace text0 (str ''&nbsp;'') (str '' '');
          text = replace text (str ''&amp;'') (str ''&'');
          text = replace text (str ''&lt;'') (str ''<'');
          text = replace text (str ''&gt;'') (str ''>'');
          text = replace text (str ''&quot;'') [34];
          text = replace text (str ''&#8217;'') [39];
          text = replace text (str ''&#8220;'') [34];
          text = replace text (str ''&#8221;'') [34];
          text = replace text (str ''&#8230;'') (str ''...'')
      in text)"

text \<open>\<^verbatim>\<open># Remove extra whitespace and normalize\<close>\<close>

definition normalize_whitespace :: "pystr \<Rightarrow> pystr" where
  "normalize_whitespace text = re_sub (Plus Space) (str '' '') text []"

text \<open>\<^verbatim>\<open># Remove common unwanted patterns\<close>\<close>

definition remove_unwanted_patterns :: "pystr \<Rightarrow> pystr" where
  "remove_unwanted_patterns text0 =
     (let text = re_sub (Lit (str ''Share this:'')) [] text0 [];
          text = re_sub (Lit (str ''Like this:'')) [] text [];
          text = re_sub (seq [Lit (str ''Posted in''), LazyStar AnyChar, Lit (str ''Tagged''),
                              LazyStar AnyChar, Eol]) [] text [MULTILINE, DOTALL];
          text = re_sub (seq [Lit (str ''Posted in''), LazyStar AnyChar, Eol]) [] text [MULTILINE];
          text = re_sub (seq [Lit (str ''Tagged''), LazyStar AnyChar, Eol]) [] text [MULTILINE]
      in text)"

text \<open>\<^verbatim>\<open># Remove navigation and footer content\<close>\<close>

definition remove_navigation_footer :: "pystr \<Rightarrow> pystr" where
  "remove_navigation_footer text0 =
     (let text = re_sub (seq [Lit (str ''Entradas anteriores''), LazyStar AnyChar, Eol]) []
                   text0 [MULTILINE, DOTALL];
          text = re_sub (seq [Lit (str ''Buscar:''), LazyStar AnyChar, Eol]) []
                   text [MULTILINE, DOTALL];
          text = re_sub (seq [Lit (str ''Relevante''), LazyStar AnyChar, Eol]) []
                   text [MULTILINE, DOTALL];
          text = re_sub (seq [Lit (str ''Comentarios recientes''), LazyStar AnyChar, Eol]) []
                   text [MULTILINE, DOTALL];
          text = re_sub (seq [Lit (str ''Archivos''), LazyStar AnyChar, Eol]) []
                   text [MULTILINE, DOTALL];
          text = re_sub (seq [Lit (str ''Meta''), LazyStar AnyChar, Eol]) []
                   text [MULTILINE, DOTALL];
          text = re_sub (seq [Lit (str ''Acerca de nosotros''), LazyStar AnyChar, Eol]) []
                   text [MULTILINE, DOTALL]
      in text)"

text \<open>\<^verbatim>\<open># Remove social media and sharing buttons\<close>\<close>

definition remove_social_media :: "pystr \<Rightarrow> pystr" where
  "remove_social_media text0 =
     (let text = re_sub (seq [Lit (str ''Facebook''), LazyStar AnyChar, Eol]) [] text0 [MULTILINE];
          text = re_sub (seq [Lit (str ''YouTube''), LazyStar AnyChar, Eol]) [] text [MULTILINE];
          text = re_sub (seq [Lit (str ''Twitter''), LazyStar AnyChar, Eol]) [] text [MULTILINE];
          text = re_sub (seq [Lit (str ''SoundCloud''), LazyStar AnyChar, Eol]) [] text [MULTILINE]
      in text)"

text \<open>\<^verbatim>\<open># Remove WordPress-specific content\<close>\<close>

definition remove_wordpress :: "pystr \<Rightarrow> pystr" where
  "remove_wordpress text0 =
     (let text = re_sub (seq [Lit (str ''Posted on''), LazyStar AnyChar, Lit (str ''by''),
                              LazyStar AnyChar, Eol]) [] text0 [MULTILINE];
          text = re_sub (seq [Lit (str ''Posted in''), LazyStar AnyChar, Eol]) [] text [MULTILINE];
          text = re_sub (seq [Lit (str ''Posted by''), LazyStar AnyChar, Eol]) [] text [MULTILINE]
      in text)"

text \<open>\<^verbatim>\<open># Remove iframe content references\<close>\<close>

definition remove_iframe :: "pystr \<Rightarrow> pystr" where
  "remove_iframe text =
     re_sub (seq [Lit (str ''iframe''), LazyStar AnyChar, Lit (str ''src=''), LazyStar AnyChar, Eol])
       [] text [MULTILINE, DOTALL]"

text \<open>
  \<^verbatim>\<open># Remove language-specific span tags content (keep only the text)\<close>;
  the character 34 is the double quote.
\<close>

definition remove_span_tags :: "pystr \<Rightarrow> pystr" where
  "remove_span_tags text0 =
     (let text = re_sub (seq [Lit (str ''<span lang='' @ [34]), Star (NoneOf [34]),
                              Lit ([34] @ str ''>'')]) [] text0 [];
          text = re_sub (Lit (str ''</span>'')) [] text []
      in text)"

text \<open>\<^verbatim>\<open># Remove empty paragraphs and extra spaces\<close>\<close>

definition remove_empty_paragraphs :: "pystr \<Rightarrow> pystr" where
  "remove_empty_paragraphs text0 =
     (let text = re_sub (seq [Lit (str ''<p><span lang='' @ [34]), Star (NoneOf [34]),
                              Lit ([34] @ str ''>''), Star Space, Lit (str ''</span></p>'')])
                   [] text0 [];
          text = re_sub (seq [Lit (str ''<p>''), Star Space, Lit (str ''</p>'')]) [] text []
      in text)"

text \<open>\<^verbatim>\<open># Remove bold tags but keep content\<close>\<close>

definition remove_bold_tags :: "pystr \<Rightarrow> pystr" where
  "remove_bold_tags text0 =
     (let text = re_sub (Lit (str ''<b>'')) [] text0 [];
          text = re_sub (Lit (str ''</b>'')) [] text []
      in text)"

text \<open>\<^verbatim>\<open># Remove paragraph tags but keep line breaks\<close>; the character 10 is the newline.\<close>

definition remove_paragraph_tags :: "pystr \<Rightarrow> pystr" where
  "remove_paragraph_tags text0 =
     (let text = re_sub (Lit (str ''<p>'')) [10] text0 [];
          text = re_sub (Lit (str ''</p>'')) [] text []
      in text)"

text \<open>\<^verbatim>\<open># Clean up line breaks and spaces\<close>, in its three steps.\<close>

definition collapse_blank_lines :: "pystr \<Rightarrow> pystr" where
  "collapse_blank_lines text = re_sub (seq [Lit [10], Star Space, Lit [10]]) [10, 10] text []"

definition trim_lines :: "pystr \<Rightarrow> pystr" where
  "trim_lines text = re_sub (Alt (seq [Bol, Plus Space]) (seq [Plus Space, Eol])) [] text [MULTILINE]"

definition clean_up_line_breaks :: "pystr \<Rightarrow> pystr" where
  "clean_up_line_breaks text = strip (trim_lines (collapse_blank_lines text))"

text \<open>The whole method; \<^verbatim>\<open>if not text: return ""\<close> comes first.\<close>

definition clean_text :: "pystr \<Rightarrow> pystr" where
  "clean_text text0 =
     (if text0 = [] then []
      else
        let text = remove_html_entities text0;
            text = normalize_whitespace text;
            text = remove_unwanted_patterns text;
            text = remove_navigation_footer text;
            text = remove_social_media text;
            text = remove_wordpress text;
            text = remove_iframe text;
            text = remove_span_tags text;
            text = remove_empty_paragraphs text;
            text = remove_bold_tags text;
            text = remove_paragraph_tags text;
            text = clean_up_line_breaks text
        in text)"

section \<open>The parsed document\<close>

text \<open>
  The document that \<^verbatim>\<open>BeautifulSoup\<close> returns is a tree of tags and strings. A tag has
  a name, the list of its classes (the multi-valued \<^verbatim>\<open>class\<close> attribute), its other
  attributes and its children. The five library calls the source makes are modelled on
  this tree: \<^verbatim>\<open>find_all(name)\<close>, \<^verbatim>\<open>find(name, class_=c)\<close>, \<^verbatim>\<open>select_one(selector)\<close>,
  \<^verbatim>\<open>get_text()\<close> and \<^verbatim>\<open>get(attribute)\<close>. A tag object is always true in a condition,
  so \<^verbatim>\<open>if not elem\<close> holds for \<^verbatim>\<open>None\<close> only.
\<close>

datatype node =
    NavigableString pystr
  | Tag (tag_name: string) (tag_classes: "string list") (tag_attrs: "(string \<times> pystr) list")
        (tag_contents: "node list")

fun descendants :: "node \<Rightarrow> node list" where
  "descendants (NavigableString s) = []"
| "descendants (Tag n cl at ks) = concat (map (\<lambda>k. k # descendants k) ks)"

fun get_text :: "node \<Rightarrow> pystr" where
  "get_text (NavigableString s) = s"
| "get_text (Tag n cl at ks) = concat (map get_text ks)"

fun has_name :: "string \<Rightarrow> node \<Rightarrow> bool" where
  "has_name n (NavigableString s) = False"
| "has_name n (Tag m cl at ks) = (m = n)"

fun has_class :: "string \<Rightarrow> node \<Rightarrow> bool" where
  "has_class c (NavigableString s) = False"
| "has_class c (Tag m cl at ks) = (c \<in> set cl)"

fun tag_get :: "node \<Rightarrow> string \<Rightarrow> pystr option" where
  "tag_get (NavigableString s) key = None"
| "tag_get (Tag m cl at ks) key = map_of at key"

definition tag_find_all :: "node \<Rightarrow> string \<Rightarrow> node list" where
  "tag_find_all soup n = filter (has_name n) (descendants soup)"

definition tag_find :: "node \<Rightarrow> string \<Rightarrow> string \<Rightarrow> node option" where
  "tag_find elem n klass = List.find (\<lambda>k. has_name n k \<and> has_class klass k) (descendants elem)"

text \<open>
  The selectors of \<^verbatim>\<open>_extract_title\<close> and \<^verbatim>\<open>_extract_author\<close> are compound selectors:
  an optional tag name, classes, and at most one attribute test, as in
  \<^verbatim>\<open>span.author.vcard\<close> and \<^verbatim>\<open>meta[name="author"]\<close>.
\<close>

datatype selector =
  Selector (sel_name: "string option") (sel_classes: "string list")
           (sel_attr: "(string \<times> pystr) option")

fun selects :: "selector \<Rightarrow> node \<Rightarrow> bool" where
  "selects sel (NavigableString s) = False"
| "selects sel (Tag m cl at ks) =
     ((case sel_name sel of None \<Rightarrow> True | Some n \<Rightarrow> m = n) \<and>
      list_all (\<lambda>c. c \<in> set cl) (sel_classes sel) \<and>
      (case sel_attr sel of None \<Rightarrow> True | Some (k, v) \<Rightarrow> map_of at k = Some v))"

definition select_one :: "node \<Rightarrow> selector \<Rightarrow> node option" where
  "select_one soup sel = List.find (selects sel) (descendants soup)"

section \<open>\<^verbatim>\<open>NewsTextExtractor._extract_title\<close> and \<^verbatim>\<open>_extract_author\<close>\<close>

definition title_selectors :: "selector list" where
  "title_selectors =
     [Selector (Some ''h1'') [''page-title''] None,
      Selector (Some ''h1'') [''entry-title''] None,
      Selector (Some ''h1'') [''post-title''] None,
      Selector (Some ''h1'') [''article-title''] None,
      Selector (Some ''h1'') [] None,
      Selector (Some ''title'') [] None]"

text \<open>The \<^verbatim>\<open>for\<close> loop over the selectors, with its \<^verbatim>\<open>return\<close> inside and after it.\<close>

fun extract_title_from :: "node \<Rightarrow> selector list \<Rightarrow> pystr" where
  "extract_title_from soup [] = str ''No title found''"
| "extract_title_from soup (selector # rest) =
     (case select_one soup selector of
        None \<Rightarrow> extract_title_from soup rest
      | Some title_elem \<Rightarrow>
          if strip (get_text title_elem) \<noteq> [] then strip (get_text title_elem)
          else extract_title_from soup rest)"

definition extract_title :: "node \<Rightarrow> pystr" where
  "extract_title soup = extract_title_from soup title_selectors"

definition author_selectors :: "selector list" where
  "author_selectors =
     [Selector (Some ''span'') [''author'', ''vcard''] None,
      Selector None [''entry-author''] None,
      Selector None [''post-author''] None,
      Selector None [''article-author''] None,
      Selector None [''author''] None,
      Selector (Some ''meta'') [] (Some (''name'', str ''author''))]"

text \<open>
  \<^verbatim>\<open>if author_elem.get('content')\<close> holds for an attribute that is present and not
  empty.
\<close>

fun extract_author_from :: "node \<Rightarrow> selector list \<Rightarrow> pystr" where
  "extract_author_from soup [] = str ''No author found''"
| "extract_author_from soup (selector # rest) =
     (case select_one soup selector of
        None \<Rightarrow> extract_author_from soup rest
      | Some author_elem \<Rightarrow>
          (case tag_get author_elem ''content'' of
             None \<Rightarrow> strip (get_text author_elem)
           | Some v \<Rightarrow> if v \<noteq> [] then v else strip (get_text author_elem)))"

definition extract_author :: "node \<Rightarrow> pystr" where
  "extract_author soup = extract_author_from soup author_selectors"

section \<open>\<^verbatim>\<open>NewsTextExtractor._extract_articles_from_archive\<close>\<close>

text \<open>
  The pieces that the loop appends to \<^verbatim>\<open>articles_text\<close>. The characters 205 and 237
  are the accented letters of \<^verbatim>\<open>ARTICULO\<close> and \<^verbatim>\<open>Categorias\<close> in the source, 61 is
  \<^verbatim>\<open>=\<close>.
\<close>

definition article_marker :: "nat \<Rightarrow> pystr \<Rightarrow> pystr" where
  "article_marker i title =
     [10] @ str ''=== ART'' @ [205] @ str ''CULO '' @ digits i @ str '': '' @ title @
     str '' ==='' @ [10]"

definition content_marker :: pystr where
  "content_marker = [10] @ str ''--- CONTENIDO ---'' @ [10]"

definition closing_separator :: pystr where
  "closing_separator = [10] @ replicate 80 61 @ [10]"

text \<open>
  The body of the loop, for the container \<open>article\<close> with its number \<open>i\<close>:
  \<^verbatim>\<open>continue\<close> leaves \<^verbatim>\<open>articles_text\<close> as it is.
\<close>

definition archive_step :: "nat \<Rightarrow> node \<Rightarrow> pystr list \<Rightarrow> pystr list" where
  "archive_step i article articles_text0 =
     (case tag_find article ''h2'' ''entry-title'' of
        None \<Rightarrow> articles_text0
      | Some title_elem \<Rightarrow>
          let title = strip (get_text title_elem);
              articles_text = articles_text0 @ [article_marker i title];
              articles_text =
                (case tag_find article ''span'' ''author'' of
                   None \<Rightarrow> articles_text
                 | Some author_elem \<Rightarrow>
                     articles_text @ [str ''Autor: '' @ strip (get_text author_elem) @ [10]]);
              articles_text =
                (case tag_find article ''time'' ''entry-date'' of
                   None \<Rightarrow> articles_text
                 | Some date_elem \<Rightarrow>
                     articles_text @ [str ''Fecha: '' @ strip (get_text date_elem) @ [10]]);
              articles_text =
                (case tag_find article ''span'' ''cat-links'' of
                   None \<Rightarrow> articles_text
                 | Some cat_elem \<Rightarrow>
                     articles_text @
                     [str ''Categor'' @ [237] @ str ''as: '' @ strip (get_text cat_elem) @ [10]]);
              articles_text = articles_text @ [content_marker];
              articles_text =
                (case tag_find article ''div'' ''entry-content'' of
                   None \<Rightarrow> articles_text
                 | Some content_elem \<Rightarrow> articles_text @ [strip (get_text content_elem)]);
              articles_text = articles_text @ [closing_separator]
          in articles_text)"

text \<open>\<^verbatim>\<open>for i, article in enumerate(articles, 1)\<close>, then \<^verbatim>\<open>"\n".join(articles_text)\<close>.\<close>

definition archive_loop :: "node list \<Rightarrow> pystr list" where
  "archive_loop articles =
     foldl (\<lambda>articles_text (i, article). archive_step i article articles_text) []
       (List.enumerate 1 articles)"

definition extract_articles_from_archive :: "node \<Rightarrow> pystr" where
  "extract_articles_from_archive soup = join [10] (archive_loop (tag_find_all soup ''article''))"

section \<open>\<^verbatim>\<open>NewsTextExtractor.extract_from_unam_global\<close>\<close>

text \<open>
  What the method gets from outside: the answer of \<^verbatim>\<open>session.get\<close>, which raises or
  returns a response; \<^verbatim>\<open>raise_for_status\<close>, which raises for a response that carries an
  error status; the parser, which raises or returns the document; and the clock. An
  exception is a value with its description \<^verbatim>\<open>str(e)\<close>.
\<close>

datatype exn = Exception (description: pystr)

record response =
  status_error :: "exn option"
  content :: pystr

record env =
  session_get :: "pystr \<Rightarrow> exn + response"
  BeautifulSoup :: "pystr \<Rightarrow> exn + node"
  now_isoformat :: pystr

text \<open>\<^verbatim>\<open>f"{n:0wd}"\<close>: the sign, then the digits padded with zeros to the width \<open>w\<close>.\<close>

definition format_0d :: "nat \<Rightarrow> int \<Rightarrow> pystr" where
  "format_0d w n =
     (if n < 0 then [45] @ replicate (w - 1 - length (digits (nat (- n)))) 48 @ digits (nat (- n))
      else replicate (w - length (digits (nat n))) 48 @ digits (nat n))"

definition base_url :: "int \<Rightarrow> int \<Rightarrow> pystr" where
  "base_url year month =
     str ''https://unamglobal.unam.mx/'' @ format_0d 4 year @ str ''/'' @ format_0d 2 month @
     str ''/''"

text \<open>The values of the dictionary that the method returns.\<close>

datatype pyval = PStr pystr | PInt int

type_synonym dict = "string \<rightharpoonup> pyval"

text \<open>
  The statements of the \<^verbatim>\<open>try\<close> block that can raise, up to the parsed document
  (lines 310 to 313).
\<close>

definition obtain_document :: "env \<Rightarrow> pystr \<Rightarrow> exn + node" where
  "obtain_document e url =
     (case session_get e url of
        Inl ex \<Rightarrow> Inl ex
      | Inr resp \<Rightarrow>
          (case status_error resp of
             Some ex \<Rightarrow> Inl ex
           | None \<Rightarrow> BeautifulSoup e (content resp)))"

text \<open>The method: the rest of the \<^verbatim>\<open>try\<close> block, and the \<^verbatim>\<open>except Exception\<close> handler.\<close>

definition extract_from_unam_global :: "env \<Rightarrow> int \<Rightarrow> int \<Rightarrow> dict" where
  "extract_from_unam_global e year month =
     (let url = base_url year month in
      case obtain_document e url of
        Inr soup \<Rightarrow>
          let articles_content = extract_articles_from_archive soup;
              content = (if strip articles_content \<noteq> [] then articles_content else [])
          in [''content'' \<mapsto> PStr content,
              ''word_count'' \<mapsto> PInt (int (length (split content))),
              ''extraction_date'' \<mapsto> PStr (now_isoformat e)]
      | Inl ex \<Rightarrow>
          [''url'' \<mapsto> PStr url,
           ''error'' \<mapsto> PStr (description ex),
           ''extraction_date'' \<mapsto> PStr (now_isoformat e)])"

section \<open>Notions used in the statements\<close>

subsection \<open>Record blocks\<close>

text \<open>
  The pieces one pass of the loop appends for the container \<open>article\<close> with number
  \<open>i\<close>, and the two groups of optional pieces among them (lines 95 to 111, and lines
  116 to 119).
\<close>

definition record_block :: "nat \<Rightarrow> node \<Rightarrow> pystr list" where
  "record_block i article = archive_step i article []"

definition metadata_lines :: "node \<Rightarrow> pystr list" where
  "metadata_lines article =
     (case tag_find article ''span'' ''author'' of
        None \<Rightarrow> []
      | Some author_elem \<Rightarrow> [str ''Autor: '' @ strip (get_text author_elem) @ [10]]) @
     (case tag_find article ''time'' ''entry-date'' of
        None \<Rightarrow> []
      | Some date_elem \<Rightarrow> [str ''Fecha: '' @ strip (get_text date_elem) @ [10]]) @
     (case tag_find article ''span'' ''cat-links'' of
        None \<Rightarrow> []
      | Some cat_elem \<Rightarrow>
          [str ''Categor'' @ [237] @ str ''as: '' @ strip (get_text cat_elem) @ [10]])"

definition content_lines :: "node \<Rightarrow> pystr list" where
  "content_lines article =
     (case tag_find article ''div'' ''entry-content'' of
        None \<Rightarrow> []
      | Some content_elem \<Rightarrow> [strip (get_text content_elem)])"

subsection \<open>The resolver and the rule chain as the specification words them\<close>

text \<open>
  The specification's resolver: the candidates are tried in order, a candidate matches
  when it locates an element whose extracted text, trimmed, is not empty, the first
  match is returned, and the fallback when there is none.
\<close>

definition spec_resolve ::
  "(selector \<Rightarrow> node option) \<Rightarrow> selector list \<Rightarrow> (node \<Rightarrow> pystr) \<Rightarrow> pystr \<Rightarrow> pystr" where
  "spec_resolve locate candidates extract fallback =
     (case filter (\<lambda>elem. strip (extract elem) \<noteq> []) (List.map_filter locate candidates) of
        [] \<Rightarrow> fallback
      | elem # _ \<Rightarrow> strip (extract elem))"

text \<open>What \<^verbatim>\<open>_extract_author\<close> returns for the element it has located (lines 217 to 219).\<close>

definition author_value :: "node \<Rightarrow> pystr" where
  "author_value author_elem =
     (case tag_get author_elem ''content'' of
        None \<Rightarrow> strip (get_text author_elem)
      | Some v \<Rightarrow> if v \<noteq> [] then v else strip (get_text author_elem))"

text \<open>
  The specification's order of the rule chain: decode entities, remove the boilerplate
  phrases, strip the markup residue, collapse the runs of blank lines, trim. The steps
  are those of \<open>clean_text\<close>; the collapsing of all whitespace does not come before the
  boilerplate rules.
\<close>

definition spec_order_clean_text :: "pystr \<Rightarrow> pystr" where
  "spec_order_clean_text text0 =
     (if text0 = [] then []
      else
        let text = remove_html_entities text0;
            text = remove_unwanted_patterns text;
            text = remove_navigation_footer text;
            text = remove_social_media text;
            text = remove_wordpress text;
            text = remove_iframe text;
            text = remove_span_tags text;
            text = remove_empty_paragraphs text;
            text = remove_bold_tags text;
            text = remove_paragraph_tags text;
            text = clean_up_line_breaks text
        in text)"

subsection \<open>Texts that the rule chain leaves alone\<close>

text \<open>\<^verbatim>\<open>w in s\<close>: the text \<open>w\<close> occurs in \<open>s\<close>.\<close>

fun contains :: "pystr \<Rightarrow> pystr \<Rightarrow> bool" where
  "contains w [] = (w = [])"
| "contains w (c # cs) = (prefix w (c # cs) \<or> contains w cs)"

definition free_of :: "pystr list \<Rightarrow> pystr \<Rightarrow> bool" where
  "free_of ws s = list_all (\<lambda>w. \<not> contains w s) ws"

text \<open>The entity codes that the first rule replaces.\<close>

definition entity_codes :: "pystr list" where
  "entity_codes =
     [str ''&nbsp;'', str ''&amp;'', str ''&lt;'', str ''&gt;'', str ''&quot;'',
      str ''&#8217;'', str ''&#8220;'', str ''&#8221;'', str ''&#8230;'']"

text \<open>The literal texts with which the patterns of the boilerplate and markup rules begin.\<close>

definition anchors :: "pystr list" where
  "anchors =
     [str ''Share this:'', str ''Like this:'', str ''Posted in'', str ''Tagged'',
      str ''Entradas anteriores'', str ''Buscar:'', str ''Relevante'',
      str ''Comentarios recientes'', str ''Archivos'', str ''Meta'',
      str ''Acerca de nosotros'', str ''Facebook'', str ''YouTube'', str ''Twitter'',
      str ''SoundCloud'', str ''Posted on'', str ''Posted by'', str ''iframe'',
      str ''<span lang='' @ [34], str ''</span>'', str ''<p>'', str ''</p>'', str ''<b>'',
      str ''</b>'']"

text \<open>
  \<open>single_spaced True s\<close>: the only whitespace in \<open>s\<close> are single blanks between two
  other characters; the flag says that a blank may not come next (at the start, and
  after a blank).
\<close>

fun single_spaced :: "bool \<Rightarrow> pystr \<Rightarrow> bool" where
  "single_spaced b [] = (\<not> b)"
| "single_spaced b (c # cs) =
     (if isspace c then c = 32 \<and> \<not> b \<and> single_spaced True cs else single_spaced False cs)"

definition plain :: "pystr \<Rightarrow> bool" where
  "plain s \<longleftrightarrow> single_spaced True s \<and> free_of entity_codes s \<and> free_of anchors s"

subsection \<open>Newlines in a run of whitespace\<close>

text \<open>
  \<open>ws_ok k s\<close>: with \<open>k\<close> newlines already seen in the current run of whitespace, no run
  of whitespace of \<open>s\<close> gets more than two newlines.
\<close>

fun ws_ok :: "nat \<Rightarrow> pystr \<Rightarrow> bool" where
  "ws_ok k [] = True"
| "ws_ok k (c # cs) =
     (if c = 10 then k < 2 \<and> ws_ok (Suc k) cs
      else if isspace c then ws_ok k cs else ws_ok 0 cs)"

text \<open>A pattern all of whose matches consist of whitespace.\<close>

definition ws_match :: "flag list \<Rightarrow> rx \<Rightarrow> bool" where
  "ws_match fl r \<longleftrightarrow>
     (\<forall>prev rest n. n \<in> set (ends fl r prev rest) \<longrightarrow>
        n \<le> length rest \<and> (\<forall>c\<in>set (take n rest). isspace c))"

text \<open>The matches of \<^verbatim>\<open>\s*\n\<close>, the part of \<^verbatim>\<open>\n\s*\n\<close> behind its first newline.\<close>

definition blank_tail :: "pystr \<Rightarrow> nat list" where
  "blank_tail cs = ends [] (Seq (Star Space) (Lit [10])) None cs"

subsection \<open>Example documents and environments\<close>

text \<open>Three record containers; the second has no title element.\<close>

definition soup_three :: node where
  "soup_three = Tag ''[document]'' [] []
     [Tag ''article'' [] [] [Tag ''h2'' [''entry-title''] [] [NavigableString (str ''A'')]],
      Tag ''article'' [] [] [Tag ''p'' [] [] [NavigableString (str ''B'')]],
      Tag ''article'' [] [] [Tag ''h2'' [''entry-title''] [] [NavigableString (str ''C'')]]]"

text \<open>Two record containers; the first has no title element.\<close>

definition soup_two :: node where
  "soup_two = Tag ''[document]'' [] []
     [Tag ''article'' [] [] [],
      Tag ''article'' [] [] [Tag ''h2'' [''entry-title''] [] [NavigableString (str ''B'')]]]"

text \<open>A container whose title element holds two blanks only.\<close>

definition article_blank_title :: node where
  "article_blank_title =
     Tag ''article'' [] [] [Tag ''h2'' [''entry-title''] [] [NavigableString (str ''  '')]]"

definition soup_blank_title :: node where
  "soup_blank_title = Tag ''[document]'' [] [] [article_blank_title]"

text \<open>A container with a title and the content \<^verbatim>\<open>a  b\<close>, with two blanks.\<close>

definition article_raw :: node where
  "article_raw =
     Tag ''article'' [] []
       [Tag ''h2'' [''entry-title''] [] [NavigableString (str ''T'')],
        Tag ''div'' [''entry-content''] [] [NavigableString (str ''a  b'')]]"

definition soup_raw :: node where
  "soup_raw = Tag ''[document]'' [] [] [article_raw]"

text \<open>A container with a title and an empty content element.\<close>

definition article_empty_content :: node where
  "article_empty_content =
     Tag ''article'' [] []
       [Tag ''h2'' [''entry-title''] [] [NavigableString (str ''T'')],
        Tag ''div'' [''entry-content''] [] []]"

definition soup_empty_content :: node where
  "soup_empty_content = Tag ''[document]'' [] [] [article_empty_content]"

text \<open>An empty \<^verbatim>\<open>span.author.vcard\<close> before an \<^verbatim>\<open>.entry-author\<close> that names Ana.\<close>

definition soup_authors :: node where
  "soup_authors = Tag ''[document]'' [] []
     [Tag ''span'' [''author'', ''vcard''] [] [],
      Tag ''div'' [''entry-author''] [] [NavigableString (str ''Ana'')]]"

text \<open>A blank \<^verbatim>\<open>h1.page-title\<close> before an \<^verbatim>\<open>h1.entry-title\<close>, and a \<^verbatim>\<open>meta\<close> author.\<close>

definition soup_titles :: node where
  "soup_titles = Tag ''[document]'' [] []
     [Tag ''h1'' [''page-title''] [] [NavigableString (str '' '')],
      Tag ''h1'' [''entry-title''] [] [NavigableString (str '' Hi '')],
      Tag ''meta'' [] [(''name'', str ''author''), (''content'', str ''Eva'')] []]"

text \<open>The text \<^verbatim>\<open>Facebook\<close>, a newline, and \<^verbatim>\<open>ab\<close> on the next line.\<close>

definition facebook_lines :: pystr where
  "facebook_lines = str ''Facebook'' @ [10] @ str ''ab''"

text \<open>An environment whose request fails, and one whose document has one container, without title.\<close>

definition env_down :: env where
  "env_down =
     \<lparr>session_get = (\<lambda>url. Inl (Exception (str ''timeout''))),
      BeautifulSoup = (\<lambda>markup. Inl (Exception (str ''not parsed''))),
      now_isoformat = str ''2025-01-01T00:00:00''\<rparr>"

definition soup_untitled :: node where
  "soup_untitled = Tag ''[document]'' [] [] [Tag ''article'' [] [] []]"

definition env_untitled :: env where
  "env_untitled =
     \<lparr>session_get = (\<lambda>url. Inr \<lparr>status_error = None, content = str ''<article></article>''\<rparr>),
      BeautifulSoup = (\<lambda>markup. Inr soup_untitled),
      now_isoformat = str ''2025-01-01T00:00:00''\<rparr>"

section \<open>Lemmas\<close>

declare sub_from.simps [simp del] replace_from.simps [simp del] digits.simps [simp del]

subsection \<open>The steps of the substitution loop\<close>

lemma sub_from_Nil:
  "sub_from fl r repl prev [] = (case ends fl r prev [] of [] \<Rightarrow> [] | n # _ \<Rightarrow> repl)"
  by (subst sub_from.simps) (simp split: list.splits)

lemma sub_from_copy:
  "ends fl r prev (c # cs) = [] \<Longrightarrow>
   sub_from fl r repl prev (c # cs) = c # sub_from fl r repl (Some c) cs"
  by (subst sub_from.simps) simp

lemma sub_from_match:
  "ends fl r prev rest = n # ns \<Longrightarrow> 0 < n \<Longrightarrow> n \<le> length rest \<Longrightarrow>
   sub_from fl r repl prev rest = repl @ sub_from fl r repl (Some (last (take n rest))) (drop n rest)"
  by (subst sub_from.simps) simp

lemma sub_from_empty_match:
  "ends fl r prev (c # cs) = n # ns \<Longrightarrow> \<not> (0 < n \<and> n \<le> length (c # cs)) \<Longrightarrow>
   sub_from fl r repl prev (c # cs) = repl @ c # sub_from fl r repl (Some c) cs"
  by (subst sub_from.simps) auto

subsection \<open>Runs of whitespace\<close>

text \<open>
  Deleting whitespace does not add a newline to any run of whitespace, so \<open>ws_ok\<close> is
  kept by \<open>strip\<close> and by a substitution that deletes matches made of whitespace.
\<close>

lemma isspace_10: "isspace 10"
  by (simp add: isspace_def)

lemma ws_ok_mono: "ws_ok k s \<Longrightarrow> j \<le> k \<Longrightarrow> ws_ok j s"
proof (induction s arbitrary: k j)
  case Nil
  then show ?case by simp
next
  case (Cons c cs)
  show ?case
  proof (cases "c = 10")
    case True
    with Cons.prems have "k < 2" "ws_ok (Suc k) cs" by simp_all
    then have "ws_ok (Suc j) cs" using Cons.IH [of "Suc k" "Suc j"] Cons.prems(2) by simp
    with True \<open>k < 2\<close> Cons.prems(2) show ?thesis by simp
  next
    case False
    with Cons show ?thesis by (cases "isspace c") auto
  qed
qed

lemma ws_ok_drop:
  "ws_ok k s \<Longrightarrow> \<forall>c\<in>set (take n s). isspace c \<Longrightarrow> ws_ok k (drop n s)"
proof (induction s arbitrary: n k)
  case Nil
  then show ?case by simp
next
  case (Cons c cs)
  show ?case
  proof (cases n)
    case 0
    with Cons.prems show ?thesis by simp
  next
    case (Suc m)
    with Cons.prems have sp: "isspace c" and rest: "\<forall>c\<in>set (take m cs). isspace c" by simp_all
    have "ws_ok k cs"
    proof (cases "c = 10")
      case True
      with Cons.prems(1) have "ws_ok (Suc k) cs" by simp
      then show ?thesis by (rule ws_ok_mono) simp
    next
      case False
      with Cons.prems(1) sp show ?thesis by simp
    qed
    then show ?thesis using Cons.IH [of k m] rest Suc by simp
  qed
qed

lemma ws_ok_dropWhile:
  assumes "ws_ok k s"
  shows "ws_ok k (dropWhile isspace s)"
proof -
  have "\<forall>c\<in>set (take (length (takeWhile isspace s)) s). isspace c"
    by (metis set_takeWhileD takeWhile_eq_take)
  with assms have "ws_ok k (drop (length (takeWhile isspace s)) s)"
    by (rule ws_ok_drop)
  then show ?thesis by (simp add: dropWhile_eq_drop)
qed

lemma ws_ok_prefix: "ws_ok k (xs @ ys) \<Longrightarrow> ws_ok k xs"
  by (induction xs arbitrary: k) (auto split: if_splits)

lemma ws_ok_strip: "ws_ok k s \<Longrightarrow> ws_ok k (strip s)"
proof -
  assume a: "ws_ok k s"
  let ?t = "dropWhile isspace s"
  have "?t = rev (dropWhile isspace (rev ?t)) @ rev (takeWhile isspace (rev ?t))"
    by (metis rev_append rev_rev_ident takeWhile_dropWhile_id)
  moreover have "ws_ok k ?t" using a by (rule ws_ok_dropWhile)
  ultimately have "ws_ok k (rev (dropWhile isspace (rev ?t)))"
    using ws_ok_prefix by metis
  then show ?thesis by (simp add: strip_def)
qed

lemma ws_ok_no_three_newlines: "ws_ok k s \<Longrightarrow> \<not> sublist [10, 10, 10] s"
proof
  assume ok: "ws_ok k s" and "sublist [10, 10, 10] s"
  then obtain ps ss where s: "s = ps @ [10, 10, 10] @ ss" by (auto simp: sublist_def)
  have "\<not> ws_ok j (ps @ [10, 10, 10] @ ss)" for j
    by (induction ps arbitrary: j) auto
  with ok s show False by simp
qed

lemma greedy_bounds:
  "n \<in> set (greedy p rest) \<Longrightarrow> n \<le> length rest \<and> (\<forall>c\<in>set (take n rest). p c)"
proof (induction rest arbitrary: n)
  case Nil
  then show ?case by simp
next
  case (Cons c cs)
  then show ?case by (cases "p c") (auto split: if_splits)
qed

lemma cls_match_Space: "cls_match fl Space = isspace"
  by (rule ext) simp

lemma ends_Eol_zero: "m \<in> set (ends fl Eol prev rest) \<Longrightarrow> m = 0"
  by (auto split: list.splits if_splits)

lemma ends_Bol_zero: "m \<in> set (ends fl Bol prev rest) \<Longrightarrow> m = 0"
  by (auto split: if_splits)

lemma ends_Seq_mem:
  "n \<in> set (ends fl (Seq a b) prev rest) \<longleftrightarrow>
   (\<exists>x\<in>set (ends fl a prev rest).
      \<exists>y\<in>set (ends fl b (before prev (take x rest)) (drop x rest)). n = x + y)"
  by auto

lemma ends_Plus_mem:
  "n \<in> set (ends fl (Plus Space) prev rest) \<Longrightarrow> n \<in> set (greedy isspace rest)"
  by (simp add: cls_match_Space)

lemma ws_match_trim: "ws_match fl (Alt (seq [Bol, Plus Space]) (seq [Plus Space, Eol]))"
  unfolding ws_match_def
proof (intro allI impI)
  fix prev rest n
  assume "n \<in> set (ends fl (Alt (seq [Bol, Plus Space]) (seq [Plus Space, Eol])) prev rest)"
  then consider
      (bol) "n \<in> set (ends fl (Seq Bol (Plus Space)) prev rest)"
    | (eol) "n \<in> set (ends fl (Seq (Plus Space) Eol) prev rest)"
    by auto
  then have "n \<in> set (greedy isspace rest)"
  proof cases
    case bol
    then obtain x y where x: "x \<in> set (ends fl Bol prev rest)"
      and y: "y \<in> set (ends fl (Plus Space) (before prev (take x rest)) (drop x rest))"
      and n: "n = x + y"
      unfolding ends_Seq_mem by blast
    from x have "x = 0" by (rule ends_Bol_zero)
    with y n show ?thesis using ends_Plus_mem [of y fl "before prev (take 0 rest)" rest] by simp
  next
    case eol
    then obtain x y where x: "x \<in> set (ends fl (Plus Space) prev rest)"
      and y: "y \<in> set (ends fl Eol (before prev (take x rest)) (drop x rest))"
      and n: "n = x + y"
      unfolding ends_Seq_mem by blast
    from y have "y = 0" by (rule ends_Eol_zero)
    with x n show ?thesis using ends_Plus_mem [of x fl prev rest] by simp
  qed
  then show "n \<le> length rest \<and> (\<forall>c\<in>set (take n rest). isspace c)"
    by (rule greedy_bounds)
qed

lemma ws_ok_sub_from:
  assumes "ws_match fl r"
  shows "ws_ok k rest \<Longrightarrow> ws_ok k (sub_from fl r [] prev rest)"
proof (induction rest arbitrary: k prev rule: length_induct)
  case (1 rest)
  show ?case
  proof (cases rest)
    case Nil
    then show ?thesis by (simp add: sub_from_Nil split: list.splits)
  next
    case (Cons c cs)
    have copy: "ws_ok k (c # sub_from fl r [] (Some c) cs)"
    proof -
      have ih: "ws_ok j cs \<Longrightarrow> ws_ok j (sub_from fl r [] (Some c) cs)" for j
        using "1.IH" Cons by simp
      show ?thesis
      proof (cases "c = 10")
        case True
        with "1.prems" Cons have "k < 2" "ws_ok (Suc k) cs" by simp_all
        with True ih [of "Suc k"] show ?thesis by simp
      next
        case False
        with "1.prems" Cons ih [of k] ih [of 0] show ?thesis
          by (cases "isspace c") simp_all
      qed
    qed
    show ?thesis
    proof (cases "ends fl r prev rest")
      case Nil
      with Cons copy show ?thesis by (simp add: sub_from_copy)
    next
      case (Cons n ns)
      note e = this
      show ?thesis
      proof (cases "0 < n \<and> n \<le> length rest")
        case True
        have "n \<in> set (ends fl r prev rest)" using e by simp
        with assms have "\<forall>c\<in>set (take n rest). isspace c"
          unfolding ws_match_def by blast
        with "1.prems" have "ws_ok k (drop n rest)" by (rule ws_ok_drop)
        moreover have "length (drop n rest) < length rest" using True by auto
        ultimately have "ws_ok k (sub_from fl r [] (Some (last (take n rest))) (drop n rest))"
          using "1.IH" by blast
        with e True show ?thesis by (simp add: sub_from_match)
      next
        case False
        with e \<open>rest = c # cs\<close> copy show ?thesis
          using sub_from_empty_match [of fl r prev c cs n ns "[]"] by simp
      qed
    qed
  qed
qed

lemma ws_ok_trim_lines: "ws_ok k s \<Longrightarrow> ws_ok k (trim_lines s)"
  unfolding trim_lines_def re_sub_def by (rule ws_ok_sub_from [OF ws_match_trim])

subsection \<open>The rule for blank lines\<close>

text \<open>
  The greedy \<^verbatim>\<open>\s*\<close> takes a match of \<^verbatim>\<open>\n\s*\n\<close> up to the last newline of the run of
  whitespace: behind a match, and behind a newline at which nothing matches, the run
  has no further newline.
\<close>

lemma blank_tail_Nil: "blank_tail [] = []"
  by (simp add: blank_tail_def)

lemma blank_tail_Cons:
  "blank_tail (c # cs) =
   (if isspace c then map Suc (blank_tail cs) @ (if c = 10 then [1] else []) else [])"
  by (auto simp: blank_tail_def cls_match_Space map_concat comp_def isspace_10
      intro!: arg_cong [where f = concat])

lemma blank_tail_props:
  "(blank_tail cs = [] \<longrightarrow> 10 \<notin> set (takeWhile isspace cs)) \<and>
   (\<forall>m ms. blank_tail cs = m # ms \<longrightarrow>
      0 < m \<and> m \<le> length cs \<and> (\<forall>c\<in>set (take m cs). isspace c) \<and>
      10 \<notin> set (takeWhile isspace (drop m cs)))"
proof (induction cs)
  case Nil
  then show ?case by (simp add: blank_tail_Nil)
next
  case (Cons c cs)
  show ?case
  proof (cases "isspace c")
    case False
    then show ?thesis by (simp add: blank_tail_Cons)
  next
    case True
    show ?thesis
    proof (cases "blank_tail cs")
      case Nil
      with Cons True show ?thesis by (auto simp: blank_tail_Cons)
    next
      case (Cons m ms)
      with Cons.IH True show ?thesis by (auto simp: blank_tail_Cons)
    qed
  qed
qed

lemma ends_blank_lines:
  "ends [] (Seq (Lit [10]) (Seq (Star Space) (Lit [10]))) prev rest =
   (case rest of [] \<Rightarrow> [] | c # cs \<Rightarrow> if c = 10 then map Suc (blank_tail cs) else [])"
  by (cases rest) (auto simp: blank_tail_def comp_def)

lemma ws_ok_collapse_from:
  "k = 0 \<or> (k \<le> 2 \<and> 10 \<notin> set (takeWhile isspace rest)) \<Longrightarrow>
   ws_ok k (sub_from [] (Seq (Lit [10]) (Seq (Star Space) (Lit [10]))) [10, 10] prev rest)"
proof (induction rest arbitrary: k prev rule: length_induct)
  case (1 rest)
  let ?r = "Seq (Lit [10]) (Seq (Star Space) (Lit [10]))"
  have ih: "ws_ok j (sub_from [] ?r [10, 10] p ys)"
    if "length ys < length rest" "j = 0 \<or> (j \<le> 2 \<and> 10 \<notin> set (takeWhile isspace ys))"
    for j p ys
    using "1.IH" that by blast
  show ?case
  proof (cases rest)
    case Nil
    then show ?thesis by (simp add: sub_from_Nil ends_blank_lines del: ends.simps)
  next
    case (Cons c cs)
    note rest = this
    show ?thesis
    proof (cases "c = 10")
      case False
      then have e: "ends [] ?r prev (c # cs) = []"
        by (simp add: ends_blank_lines del: ends.simps)
      have step: "sub_from [] ?r [10, 10] prev (c # cs) = c # sub_from [] ?r [10, 10] (Some c) cs"
        using e by (rule sub_from_copy)
      show ?thesis
      proof (cases "isspace c")
        case True
        have "k = 0 \<or> (k \<le> 2 \<and> 10 \<notin> set (takeWhile isspace cs))"
          using "1.prems" rest True by auto
        then have "ws_ok k (sub_from [] ?r [10, 10] (Some c) cs)"
          using rest by (intro ih) simp_all
        with step rest False True show ?thesis by (simp del: ends.simps)
      next
        case nsp: False
        have "ws_ok 0 (sub_from [] ?r [10, 10] (Some c) cs)"
          using rest by (intro ih) simp_all
        with step rest False nsp show ?thesis by (simp del: ends.simps)
      qed
    next
      case True
      with "1.prems" rest have k: "k = 0" by (auto simp: isspace_10)
      show ?thesis
      proof (cases "blank_tail cs")
        case Nil
        with True have e: "ends [] ?r prev (c # cs) = []"
          by (simp add: ends_blank_lines del: ends.simps)
        have step: "sub_from [] ?r [10, 10] prev (c # cs) = c # sub_from [] ?r [10, 10] (Some c) cs"
          using e by (rule sub_from_copy)
        from Nil have "10 \<notin> set (takeWhile isspace cs)" using blank_tail_props [of cs] by simp
        then have "ws_ok 1 (sub_from [] ?r [10, 10] (Some c) cs)"
          using rest by (intro ih) simp_all
        with True step rest k show ?thesis by (simp del: ends.simps)
      next
        case (Cons m ms)
        with True have e: "ends [] ?r prev (c # cs) = Suc m # map Suc ms"
          by (simp add: ends_blank_lines del: ends.simps)
        from Cons have m: "m \<le> length cs" "10 \<notin> set (takeWhile isspace (drop m cs))"
          using blank_tail_props [of cs] by simp_all
        define p where "p = Some (last (take (Suc m) (c # cs)))"
        have "ws_ok 2 (sub_from [] ?r [10, 10] p (drop m cs))"
          using rest m by (intro ih) simp_all
        moreover have "sub_from [] ?r [10, 10] prev (c # cs) =
          [10, 10] @ sub_from [] ?r [10, 10] p (drop (Suc m) (c # cs))"
          unfolding p_def using e m(1) by (intro sub_from_match) simp_all
        ultimately show ?thesis using rest k by (simp add: numeral_2_eq_2 del: ends.simps)
      qed
    qed
  qed
qed

lemma ws_ok_collapse_blank_lines: "ws_ok 0 (collapse_blank_lines s)"
  using ws_ok_collapse_from [of 0 s None] by (simp add: collapse_blank_lines_def re_sub_def del: ends.simps)

lemma clean_text_ws_ok: "ws_ok 0 (clean_text x)"
  by (simp add: clean_text_def Let_def clean_up_line_breaks_def ws_ok_strip ws_ok_trim_lines
      ws_ok_collapse_blank_lines)

subsection \<open>Texts in which a rule finds nothing\<close>

text \<open>
  A pattern that begins with a literal text matches nowhere in a text that does not
  contain the literal; the rules for whitespace find nothing to change in a text
  whose only whitespace are single blanks between other characters.
\<close>

lemma replace_from_absent: "\<not> contains old s \<Longrightarrow> replace_from old new s = s"
proof (induction s)
  case Nil
  then show ?case by (simp add: replace_from.simps)
next
  case (Cons c cs)
  then show ?case by (subst replace_from.simps) simp
qed

lemma contains_Nil: "contains [] s"
  by (cases s) simp_all

lemma replace_absent: "\<not> contains old s \<Longrightarrow> replace s old new = s"
  using contains_Nil [of s] by (cases "old = []") (auto simp: replace_def replace_from_absent)

lemma sub_from_Seq_Lit_absent:
  "\<not> contains w s \<Longrightarrow> sub_from fl (Seq (Lit w) r) repl prev s = s"
proof (induction s arbitrary: prev)
  case Nil
  then show ?case by (simp add: sub_from_Nil)
next
  case (Cons c cs)
  then have "ends fl (Seq (Lit w) r) prev (c # cs) = []" by simp
  then have "sub_from fl (Seq (Lit w) r) repl prev (c # cs) =
             c # sub_from fl (Seq (Lit w) r) repl (Some c) cs"
    by (rule sub_from_copy)
  with Cons show ?case by simp
qed

lemma sub_from_Lit_absent:
  "\<not> contains w s \<Longrightarrow> sub_from fl (Lit w) repl prev s = s"
proof (induction s arbitrary: prev)
  case Nil
  then show ?case by (simp add: sub_from_Nil)
next
  case (Cons c cs)
  then have "ends fl (Lit w) prev (c # cs) = []" by simp
  then have "sub_from fl (Lit w) repl prev (c # cs) = c # sub_from fl (Lit w) repl (Some c) cs"
    by (rule sub_from_copy)
  with Cons show ?case by simp
qed

lemma re_sub_seq_absent:
  "\<not> contains w s \<Longrightarrow> re_sub (seq (Lit w # r # rs)) repl s fl = s"
  by (simp add: re_sub_def sub_from_Seq_Lit_absent del: ends.simps)

lemma re_sub_Lit_absent:
  "\<not> contains w s \<Longrightarrow> re_sub (Lit w) repl s fl = s"
  by (simp add: re_sub_def sub_from_Lit_absent del: ends.simps)

lemma single_spaced_collapse:
  "single_spaced b s \<Longrightarrow> sub_from [] (Plus Space) [32] prev s = s"
proof (induction s arbitrary: b prev rule: length_induct)
  case (1 s)
  show ?case
  proof (cases s)
    case Nil
    then show ?thesis by (simp add: sub_from_Nil)
  next
    case (Cons c cs)
    note s = this
    show ?thesis
    proof (cases "isspace c")
      case False
      then have "ends [] (Plus Space) prev (c # cs) = []" by simp
      then have "sub_from [] (Plus Space) [32] prev (c # cs) =
                 c # sub_from [] (Plus Space) [32] (Some c) cs"
        by (rule sub_from_copy)
      moreover have "sub_from [] (Plus Space) [32] (Some c) cs = cs"
        using "1.IH" "1.prems" s False by auto
      ultimately show ?thesis using s by simp
    next
      case True
      with "1.prems" s have c: "c = 32" and cs: "single_spaced True cs" by simp_all
      from cs obtain d ds where ds: "cs = d # ds" "\<not> isspace d" "single_spaced False ds"
        by (cases cs) (auto split: if_splits)
      have "ends [] (Plus Space) prev (c # cs) = [1]" using True ds by simp
      then have "sub_from [] (Plus Space) [32] prev (c # cs) =
                 [32] @ sub_from [] (Plus Space) [32] (Some (last (take 1 (c # cs)))) (drop 1 (c # cs))"
        by (intro sub_from_match) simp_all
      moreover have "sub_from [] (Plus Space) [32] p cs = cs" for p
        using "1.IH" cs s by auto
      ultimately show ?thesis using s c by simp
    qed
  qed
qed

lemma single_spaced_no_newline: "single_spaced b s \<Longrightarrow> \<not> contains [10] s"
  using isspace_10 by (induction s arbitrary: b) (auto split: if_splits)

lemma single_spaced_trim:
  "single_spaced b s \<Longrightarrow> prev \<noteq> Some 10 \<Longrightarrow> (prev = None \<longrightarrow> b \<or> s = []) \<Longrightarrow>
   sub_from [MULTILINE] (Alt (Seq Bol (Plus Space)) (Seq (Plus Space) Eol)) [] prev s = s"
proof (induction s arbitrary: b prev)
  case Nil
  then show ?case by (simp add: sub_from_Nil)
next
  case (Cons c cs)
  let ?r = "Alt (Seq Bol (Plus Space)) (Seq (Plus Space) Eol)"
  have e: "ends [MULTILINE] ?r prev (c # cs) = []"
  proof (cases "isspace c")
    case False
    then show ?thesis by (simp add: before_def)
  next
    case True
    with Cons.prems have c: "c = 32" "\<not> b" and cs: "single_spaced True cs" by simp_all
    from cs obtain d ds where ds: "cs = d # ds" "\<not> isspace d"
      by (cases cs) (auto split: if_splits)
    from ds have "d \<noteq> 10" using isspace_10 by auto
    with True c ds Cons.prems show ?thesis by (auto simp: before_def)
  qed
  have "sub_from [MULTILINE] ?r [] prev (c # cs) = c # sub_from [MULTILINE] ?r [] (Some c) cs"
    using e by (rule sub_from_copy)
  moreover have "sub_from [MULTILINE] ?r [] (Some c) cs = cs"
  proof (rule Cons.IH)
    show "single_spaced (isspace c) cs" using Cons.prems(1) by (auto split: if_splits)
    show "Some c \<noteq> Some 10" using Cons.prems(1) isspace_10 by (auto split: if_splits)
    show "Some c = None \<longrightarrow> isspace c \<or> cs = []" by simp
  qed
  ultimately show ?case by simp
qed

lemma strip_id: "s \<noteq> [] \<Longrightarrow> \<not> isspace (hd s) \<Longrightarrow> \<not> isspace (last s) \<Longrightarrow> strip s = s"
proof -
  assume ne: "s \<noteq> []" and h: "\<not> isspace (hd s)" and l: "\<not> isspace (last s)"
  from ne h have 1: "dropWhile isspace s = s" by (cases s) simp_all
  from ne l have 2: "dropWhile isspace (rev s) = rev s"
    by (cases "rev s") (simp_all add: hd_rev [symmetric])
  show ?thesis by (simp add: strip_def 1 2)
qed

lemma single_spaced_last: "single_spaced b t \<Longrightarrow> t \<noteq> [] \<Longrightarrow> \<not> isspace (last t)"
  by (induction t arbitrary: b) (auto split: if_splits)

lemma single_spaced_strip: "single_spaced True s \<Longrightarrow> strip s = s"
proof -
  assume a: "single_spaced True s"
  then have ne: "s \<noteq> []" by auto
  from a ne have "\<not> isspace (hd s)" by (cases s) (auto split: if_splits)
  moreover from a ne have "\<not> isspace (last s)" by (rule single_spaced_last)
  ultimately show ?thesis using ne by (simp add: strip_id)
qed

lemma contains_append: "contains (w @ v) s \<Longrightarrow> contains w s"
  by (induction s) (auto dest: append_prefixD)

lemma remove_html_entities_id: "free_of entity_codes s \<Longrightarrow> remove_html_entities s = s"
  by (simp add: free_of_def entity_codes_def remove_html_entities_def Let_def replace_absent)

lemma normalize_whitespace_id: "single_spaced True s \<Longrightarrow> normalize_whitespace s = s"
proof -
  have "str '' '' = [32]" by (simp add: str_def)
  then show "single_spaced True s \<Longrightarrow> normalize_whitespace s = s"
    by (simp add: normalize_whitespace_def re_sub_def single_spaced_collapse del: ends.simps)
qed

lemma boilerplate_id:
  assumes "free_of anchors s"
  shows "remove_unwanted_patterns s = s"
    and "remove_navigation_footer s = s"
    and "remove_social_media s = s"
    and "remove_wordpress s = s"
    and "remove_iframe s = s"
  using assms
  by (simp_all add: free_of_def anchors_def remove_unwanted_patterns_def
      remove_navigation_footer_def remove_social_media_def remove_wordpress_def
      remove_iframe_def Let_def re_sub_seq_absent re_sub_Lit_absent
      del: seq.simps ends.simps)

lemma markup_id:
  assumes "free_of anchors s"
  shows "remove_span_tags s = s"
    and "remove_empty_paragraphs s = s"
    and "remove_bold_tags s = s"
    and "remove_paragraph_tags s = s"
proof -
  from assms have p: "\<not> contains (str ''<p>'') s" by (simp add: free_of_def anchors_def)
  have "\<not> contains (str ''<p>'' @ str ''<span lang='' @ [34]) s"
    using p contains_append by blast
  then have q: "\<not> contains (str ''<p><span lang='' @ [34]) s" by (simp add: str_def)
  from assms p q show "remove_span_tags s = s" "remove_empty_paragraphs s = s"
    "remove_bold_tags s = s" "remove_paragraph_tags s = s"
    by (simp_all add: free_of_def anchors_def remove_span_tags_def remove_empty_paragraphs_def
        remove_bold_tags_def remove_paragraph_tags_def Let_def re_sub_seq_absent
        re_sub_Lit_absent del: seq.simps ends.simps)
qed

lemma clean_up_line_breaks_id: "single_spaced True s \<Longrightarrow> clean_up_line_breaks s = s"
proof -
  assume a: "single_spaced True s"
  have 1: "collapse_blank_lines s = s"
    using single_spaced_no_newline [OF a]
    by (simp add: collapse_blank_lines_def re_sub_seq_absent del: seq.simps ends.simps)
  have 2: "trim_lines s = s"
    using single_spaced_trim [OF a, of None]
    by (simp add: trim_lines_def re_sub_def del: ends.simps)
  show ?thesis by (simp add: clean_up_line_breaks_def 1 2 single_spaced_strip [OF a])
qed

lemma clean_text_after_entities:
  assumes "x \<noteq> []" "single_spaced True (remove_html_entities x)"
    "free_of anchors (remove_html_entities x)"
  shows "clean_text x = remove_html_entities x"
  using assms
  by (simp add: clean_text_def Let_def normalize_whitespace_id boilerplate_id markup_id
      clean_up_line_breaks_id)

lemma clean_text_plain: "plain t \<Longrightarrow> clean_text t = t"
proof -
  assume p: "plain t"
  then have e: "remove_html_entities t = t" by (simp add: plain_def remove_html_entities_id)
  from p have "t \<noteq> []" by (auto simp: plain_def)
  with p e show ?thesis using clean_text_after_entities [of t] by (simp add: plain_def)
qed

subsection \<open>The chain on concrete texts\<close>

lemma replace_from_Nil: "replace_from old new [] = []"
  by (simp add: replace_from.simps)

lemma replace_from_hit:
  "old \<noteq> [] \<Longrightarrow> prefix old (c # cs) \<Longrightarrow>
   replace_from old new (c # cs) = new @ replace_from old new (drop (length old) (c # cs))"
  by (subst replace_from.simps) simp

lemma replace_from_miss:
  "\<not> prefix old (c # cs) \<Longrightarrow> replace_from old new (c # cs) = c # replace_from old new cs"
  by (subst replace_from.simps) simp

lemmas eval_replace = replace_def replace_from_Nil replace_from_hit replace_from_miss

lemmas eval_sub = re_sub_def sub_from_Nil sub_from_copy sub_from_match before_def

lemma clean_text_after_whitespace:
  assumes "x \<noteq> []" "single_spaced True (normalize_whitespace (remove_html_entities x))"
    "free_of anchors (normalize_whitespace (remove_html_entities x))"
  shows "clean_text x = normalize_whitespace (remove_html_entities x)"
  using assms
  by (simp add: clean_text_def Let_def boilerplate_id markup_id clean_up_line_breaks_id)

lemma entities_amp_amp: "remove_html_entities (str ''&amp;amp;'') = str ''&amp;''"
  by (simp add: remove_html_entities_def Let_def str_def eval_replace)

lemma entities_amp: "remove_html_entities (str ''&amp;'') = str ''&''"
  by (simp add: remove_html_entities_def Let_def str_def eval_replace)

lemma clean_text_amp_amp: "clean_text (str ''&amp;amp;'') = str ''&amp;''"
proof -
  have "single_spaced True (str ''&amp;'')" by (simp add: str_def isspace_def)
  moreover have "free_of anchors (str ''&amp;'')" by (simp add: free_of_def anchors_def str_def)
  moreover have "str ''&amp;amp;'' \<noteq> []" by (simp add: str_def)
  ultimately show ?thesis using clean_text_after_entities [of "str ''&amp;amp;''"] by (simp add: entities_amp_amp)
qed

lemma clean_text_amp: "clean_text (str ''&amp;'') = str ''&''"
proof -
  have "single_spaced True (str ''&'')" by (simp add: str_def isspace_def)
  moreover have "free_of anchors (str ''&'')" by (simp add: free_of_def anchors_def str_def)
  moreover have "str ''&amp;'' \<noteq> []" by (simp add: str_def)
  ultimately show ?thesis using clean_text_after_entities [of "str ''&amp;''"] by (simp add: entities_amp)
qed

lemma clean_text_two_blanks: "clean_text (str ''a  b'') = str ''a b''"
proof -
  have e: "remove_html_entities (str ''a  b'') = str ''a  b''"
    by (rule remove_html_entities_id) (simp add: free_of_def entity_codes_def str_def)
  have n: "normalize_whitespace (str ''a  b'') = str ''a b''"
    by (simp add: normalize_whitespace_def str_def isspace_def eval_sub)
  have "single_spaced True (str ''a b'')" by (simp add: str_def isspace_def)
  moreover have "free_of anchors (str ''a b'')" by (simp add: free_of_def anchors_def str_def)
  moreover have "str ''a  b'' \<noteq> []" by (simp add: str_def)
  ultimately show ?thesis using clean_text_after_whitespace [of "str ''a  b''"] by (simp add: e n)
qed

lemma late_stages_Nil:
  "remove_wordpress [] = []" "remove_iframe [] = []" "remove_span_tags [] = []"
  "remove_empty_paragraphs [] = []" "remove_bold_tags [] = []" "remove_paragraph_tags [] = []"
  "clean_up_line_breaks [] = []"
  by (simp_all add: remove_wordpress_def remove_iframe_def remove_span_tags_def
      remove_empty_paragraphs_def remove_bold_tags_def remove_paragraph_tags_def
      clean_up_line_breaks_def collapse_blank_lines_def trim_lines_def strip_def
      re_sub_def sub_from_Nil str_def)

lemma clean_text_facebook_lines: "clean_text facebook_lines = []"
proof -
  have e: "remove_html_entities facebook_lines = facebook_lines"
    by (rule remove_html_entities_id)
      (simp add: free_of_def entity_codes_def facebook_lines_def str_def)
  have n: "normalize_whitespace facebook_lines = str ''Facebook ab''"
    by (simp add: normalize_whitespace_def facebook_lines_def str_def isspace_def eval_sub)
  have u: "remove_unwanted_patterns (str ''Facebook ab'') = str ''Facebook ab''"
    by (simp add: remove_unwanted_patterns_def Let_def re_sub_seq_absent re_sub_Lit_absent str_def
        del: seq.simps ends.simps)
  have f: "remove_navigation_footer (str ''Facebook ab'') = str ''Facebook ab''"
    by (simp add: remove_navigation_footer_def Let_def re_sub_seq_absent str_def
        del: seq.simps ends.simps)
  have s1: "re_sub (seq [Lit (str ''Facebook''), LazyStar AnyChar, Eol]) [] (str ''Facebook ab'')
              [MULTILINE] = []"
    by (simp add: str_def eval_sub)
  have s: "remove_social_media (str ''Facebook ab'') = []"
    unfolding remove_social_media_def Let_def s1
    by (simp add: re_sub_seq_absent str_def del: seq.simps ends.simps)
  have "facebook_lines \<noteq> []" by (simp add: facebook_lines_def)
  then show ?thesis
    by (simp add: clean_text_def Let_def e n u f s late_stages_Nil)
qed

lemma spec_order_facebook_lines: "spec_order_clean_text facebook_lines = str ''ab''"
proof -
  have e: "remove_html_entities facebook_lines = facebook_lines"
    by (rule remove_html_entities_id)
      (simp add: free_of_def entity_codes_def facebook_lines_def str_def)
  have u: "remove_unwanted_patterns facebook_lines = facebook_lines"
    by (simp add: remove_unwanted_patterns_def facebook_lines_def Let_def re_sub_seq_absent
        re_sub_Lit_absent str_def del: seq.simps ends.simps)
  have f: "remove_navigation_footer facebook_lines = facebook_lines"
    by (simp add: remove_navigation_footer_def facebook_lines_def Let_def re_sub_seq_absent str_def
        del: seq.simps ends.simps)
  have s1: "re_sub (seq [Lit (str ''Facebook''), LazyStar AnyChar, Eol]) [] facebook_lines
              [MULTILINE] = 10 # str ''ab''"
    by (simp add: facebook_lines_def str_def eval_sub)
  have s: "remove_social_media facebook_lines = 10 # str ''ab''"
    unfolding remove_social_media_def Let_def s1
    by (simp add: re_sub_seq_absent str_def del: seq.simps ends.simps)
  have w: "remove_wordpress (10 # str ''ab'') = 10 # str ''ab''"
    by (simp add: remove_wordpress_def Let_def re_sub_seq_absent str_def
        del: seq.simps ends.simps)
  have i: "remove_iframe (10 # str ''ab'') = 10 # str ''ab''"
    by (simp add: remove_iframe_def Let_def re_sub_seq_absent str_def
        del: seq.simps ends.simps)
  have m: "remove_span_tags (10 # str ''ab'') = 10 # str ''ab''"
    "remove_empty_paragraphs (10 # str ''ab'') = 10 # str ''ab''"
    "remove_bold_tags (10 # str ''ab'') = 10 # str ''ab''"
    "remove_paragraph_tags (10 # str ''ab'') = 10 # str ''ab''"
    by (simp_all add: remove_span_tags_def remove_empty_paragraphs_def remove_bold_tags_def
        remove_paragraph_tags_def Let_def re_sub_seq_absent re_sub_Lit_absent str_def
        del: seq.simps ends.simps)
  have c: "clean_up_line_breaks (10 # str ''ab'') = str ''ab''"
    by (simp add: clean_up_line_breaks_def collapse_blank_lines_def trim_lines_def strip_def
        str_def isspace_def eval_sub)
  have "facebook_lines \<noteq> []" by (simp add: facebook_lines_def)
  then show ?thesis
    by (simp add: spec_order_clean_text_def Let_def e u f s w i m c)
qed

subsection \<open>The archive loop and the resolvers\<close>

lemma archive_step_append: "archive_step i a acc = acc @ archive_step i a []"
  by (simp add: archive_step_def Let_def split: option.splits)

lemma foldl_archive_step:
  "foldl (\<lambda>articles_text (i, article). archive_step i article articles_text) acc xs =
   acc @ concat (map (\<lambda>(i, article). archive_step i article []) xs)"
proof (induction xs arbitrary: acc)
  case Nil
  then show ?case by simp
next
  case (Cons x xs)
  obtain i a where x: "x = (i, a)" by (cases x)
  show ?case
    using archive_step_append [of i a acc] by (simp add: Cons.IH x)
qed

lemma archive_loop_blocks:
  "archive_loop articles =
   concat (map (\<lambda>(i, article). record_block i article) (List.enumerate 1 articles))"
  by (simp add: archive_loop_def foldl_archive_step record_block_def)

lemma record_block_untitled:
  "tag_find article ''h2'' ''entry-title'' = None \<Longrightarrow> record_block i article = []"
  by (simp add: record_block_def archive_step_def)

lemma extract_title_from_resolve:
  "extract_title_from soup sels =
   spec_resolve (select_one soup) sels get_text (str ''No title found'')"
  by (induction sels) (simp_all add: spec_resolve_def List.map_filter_simps split: option.splits)

lemma extract_author_from_first:
  "extract_author_from soup sels =
   (case List.map_filter (select_one soup) sels of
      [] \<Rightarrow> str ''No author found''
    | author_elem # _ \<Rightarrow> author_value author_elem)"
  by (induction sels) (simp_all add: author_value_def List.map_filter_simps split: option.splits)

text \<open>
  What the two methods return: \<^verbatim>\<open>_extract_title\<close> is the resolver of the specification;
  \<^verbatim>\<open>_extract_author\<close> returns for the first element that a candidate locates.
\<close>

lemma resolvers_characterised:
  "extract_title soup =
     spec_resolve (select_one soup) title_selectors get_text (str ''No title found'') \<and>
   extract_author soup =
     (case List.map_filter (select_one soup) author_selectors of
        [] \<Rightarrow> str ''No author found''
      | author_elem # _ \<Rightarrow> author_value author_elem)"
  by (simp add: extract_title_def extract_author_def extract_title_from_resolve
      extract_author_from_first)

lemma record_block_layout:
  "tag_find article ''h2'' ''entry-title'' = Some title_elem \<Longrightarrow>
   record_block i article =
     article_marker i (strip (get_text title_elem)) # metadata_lines article @
     [content_marker] @ content_lines article @ [closing_separator]"
  by (simp add: record_block_def archive_step_def metadata_lines_def content_lines_def Let_def
      split: option.splits)

lemma extract_articles_blocks:
  "extract_articles_from_archive soup =
   join [10] (concat (map (\<lambda>(i, article). record_block i article)
     (List.enumerate 1 (tag_find_all soup ''article''))))"
  by (simp add: extract_articles_from_archive_def archive_loop_blocks)

lemmas eval_soup =
  extract_articles_from_archive_def archive_loop_blocks record_block_def archive_step_def
  tag_find_def tag_find_all_def strip_def str_def isspace_def

lemma digits_small: "n < 10 \<Longrightarrow> digits n = [48 + n]"
  by (simp add: digits.simps)

section \<open>The claims\<close>

subsection \<open>C1: the numbers in the record markers\<close>

text \<open>
  The claim, as stated, fails on \<open>soup_three\<close>, the document of its own scenario: three
  record containers of which the second has no title element. The loop numbers with
  \<^verbatim>\<open>enumerate(articles, 1)\<close> and the \<^verbatim>\<open>continue\<close> of a skipped container does not hold
  the number back, so the two records are numbered 1 and 3, not 1 and 2.
\<close>

theorem C1_counterexample:
  "extract_articles_from_archive soup_three =
     join [10] [article_marker 1 (str ''A''), content_marker, closing_separator,
                article_marker 3 (str ''C''), content_marker, closing_separator] \<and>
   extract_articles_from_archive soup_three \<noteq>
     join [10] [article_marker 1 (str ''A''), content_marker, closing_separator,
                article_marker 2 (str ''C''), content_marker, closing_separator]"
proof -
  have a: "extract_articles_from_archive soup_three =
     join [10] [article_marker 1 (str ''A''), content_marker, closing_separator,
                article_marker 3 (str ''C''), content_marker, closing_separator]"
    by (simp add: eval_soup soup_three_def numeral_3_eq_3)
  have b: "article_marker 3 (str ''C'') \<noteq> article_marker 2 (str ''C'')"
    by (simp add: article_marker_def digits_small)
  show ?thesis unfolding a using b by simp
qed

text \<open>
  C1, amended: the marker of a record carries the 1-based position of its container
  among all record containers of the document, the skipped ones counted. The output
  is the blocks of the containers in document order, each with its position; a
  container without title element has the empty block, and the block of any other
  begins with the marker that holds its position and its title.
\<close>

theorem C1_marker_is_container_position:
  "extract_articles_from_archive soup =
     join [10] (concat (map (\<lambda>(i, article). record_block i article)
       (List.enumerate 1 (tag_find_all soup ''article'')))) \<and>
   (\<forall>i article. tag_find article ''h2'' ''entry-title'' = None \<longrightarrow> record_block i article = []) \<and>
   (\<forall>i article title_elem. tag_find article ''h2'' ''entry-title'' = Some title_elem \<longrightarrow>
      record_block i article =
        article_marker i (strip (get_text title_elem)) # metadata_lines article @
        [content_marker] @ content_lines article @ [closing_separator])"
  by (simp add: extract_articles_blocks record_block_untitled record_block_layout)

text \<open>On \<open>soup_two\<close>, whose first container is skipped, the only record has the number 2.\<close>

theorem C1_witness:
  "extract_articles_from_archive soup_two =
     join [10] [article_marker 2 (str ''B''), content_marker, closing_separator]"
proof -
  have "record_block 1 (Tag ''article'' [] [] []) = []"
    by (simp add: record_block_def archive_step_def tag_find_def)
  moreover have "record_block 2
      (Tag ''article'' [] [] [Tag ''h2'' [''entry-title''] [] [NavigableString (str ''B'')]]) =
      [article_marker 2 (str ''B''), content_marker, closing_separator]"
    by (simp add: record_block_def archive_step_def tag_find_def strip_def str_def isspace_def)
  ultimately show ?thesis
    using C1_marker_is_container_position [of soup_two]
    by (simp add: soup_two_def tag_find_all_def numeral_2_eq_2)
qed

subsection \<open>C2: the place of the whitespace rule in the chain\<close>

text \<open>
  C2 does not hold of the code: \<open>clean_text\<close> collapses all whitespace, the newlines
  with it, right after the entities (line 240) and before the boilerplate rules, whose
  patterns end in \<^verbatim>\<open>$\<close> under \<^verbatim>\<open>re.MULTILINE\<close>. On \<open>facebook_lines\<close> the rule for
  \<^verbatim>\<open>Facebook\<close> then finds one single line and deletes the text \<^verbatim>\<open>ab\<close> of the next line
  with it, so that nothing is left; in the order of the specification the rule deletes
  the first line only and \<^verbatim>\<open>ab\<close> is kept.
\<close>

theorem C2_order_divergence:
  "clean_text facebook_lines = [] \<and> spec_order_clean_text facebook_lines = str ''ab''"
  using clean_text_facebook_lines spec_order_facebook_lines by simp

subsection \<open>C3: the content text of a record\<close>

text \<open>
  The claim, as stated, fails on \<open>soup_raw\<close>, whose only container has the content
  \<^verbatim>\<open>a  b\<close> with two blanks: the block holds this text as it is, while the rule chain
  of \<open>clean_text\<close> makes \<^verbatim>\<open>a b\<close> of it. The method calls \<^verbatim>\<open>strip()\<close> on the extracted
  text (line 118) and never calls \<^verbatim>\<open>_clean_text\<close>.
\<close>

theorem C3_counterexample:
  "extract_articles_from_archive soup_raw =
     join [10] [article_marker 1 (str ''T''), content_marker, str ''a  b'',
                closing_separator] \<and>
   clean_text (str ''a  b'') = str ''a b'' \<and>
   str ''a  b'' \<noteq> str ''a b''"
proof -
  have "extract_articles_from_archive soup_raw =
     join [10] [article_marker 1 (str ''T''), content_marker, str ''a  b'', closing_separator]"
    by (simp add: eval_soup soup_raw_def article_raw_def)
  moreover have "str ''a  b'' \<noteq> str ''a b''" by (simp add: str_def)
  ultimately show ?thesis using clean_text_two_blanks by simp
qed

text \<open>
  C3, amended: for a container with a title element and a content element, the pass of
  the loop appends the marker, the metadata lines, the content marker, then the text
  of the content element with the whitespace at its two ends removed and nothing else
  changed, then the closing separator.
\<close>

theorem C3_content_is_stripped_raw_text:
  assumes "tag_find article ''h2'' ''entry-title'' = Some title_elem"
    and "tag_find article ''div'' ''entry-content'' = Some content_elem"
  shows "archive_step i article articles_text =
     articles_text @ article_marker i (strip (get_text title_elem)) # metadata_lines article @
     [content_marker, strip (get_text content_elem), closing_separator]"
proof -
  have "archive_step i article articles_text = articles_text @ record_block i article"
    unfolding record_block_def by (rule archive_step_append)
  with assms show ?thesis by (simp add: record_block_layout content_lines_def)
qed

text \<open>
  On the container of \<open>soup_raw\<close> the content piece is \<^verbatim>\<open>a  b\<close>, its two blanks kept.
\<close>

theorem C3_witness:
  "archive_step 1 article_raw [] =
     [article_marker 1 (str ''T''), content_marker, str ''a  b'', closing_separator]"
proof -
  let ?t = "Tag ''h2'' [''entry-title''] [] [NavigableString (str ''T'')]"
  let ?c = "Tag ''div'' [''entry-content''] [] [NavigableString (str ''a  b'')]"
  have t: "tag_find article_raw ''h2'' ''entry-title'' = Some ?t"
    by (simp add: tag_find_def article_raw_def)
  have c: "tag_find article_raw ''div'' ''entry-content'' = Some ?c"
    by (simp add: tag_find_def article_raw_def)
  have m: "metadata_lines article_raw = []"
    by (simp add: metadata_lines_def tag_find_def article_raw_def)
  show ?thesis
    using C3_content_is_stripped_raw_text [OF t c, of 1 "[]"] m
    by (simp add: strip_def str_def isspace_def)
qed

subsection \<open>C4: containers with empty content\<close>

text \<open>
  The claim, as stated, fails on \<open>soup_empty_content\<close>: the content element of its
  container is empty, so is its cleaned content, and the record is in the output all
  the same, with an empty content piece. The only test that skips a container is the
  one on the title element (lines 89 and 90); the content is appended under
  \<^verbatim>\<open>if content_elem\<close> and the separator after it in every case.
\<close>

theorem C4_counterexample:
  "tag_find article_empty_content ''div'' ''entry-content'' =
     Some (Tag ''div'' [''entry-content''] [] []) \<and>
   clean_text (get_text (Tag ''div'' [''entry-content''] [] [])) = [] \<and>
   extract_articles_from_archive soup_empty_content =
     join [10] [article_marker 1 (str ''T''), content_marker, [], closing_separator]"
  by (simp add: eval_soup soup_empty_content_def article_empty_content_def clean_text_def)

text \<open>
  C4, amended: every record container of the document that has a title element
  produces a record, whatever its content. Its marker and all the pieces of its block
  are in the output of the loop, and the block is the marker, the metadata lines, the
  content marker, the content piece when there is a content element (the empty text
  when that element has no text), and the closing separator.
\<close>

theorem C4_titled_container_is_emitted:
  assumes "article \<in> set (tag_find_all soup ''article'')"
    and "tag_find article ''h2'' ''entry-title'' = Some title_elem"
  shows "\<exists>i. article_marker i (strip (get_text title_elem)) \<in>
           set (archive_loop (tag_find_all soup ''article'')) \<and>
         (\<forall>p\<in>set (record_block i article). p \<in> set (archive_loop (tag_find_all soup ''article''))) \<and>
         record_block i article =
           article_marker i (strip (get_text title_elem)) # metadata_lines article @
           [content_marker] @ content_lines article @ [closing_separator]"
proof -
  let ?as = "tag_find_all soup ''article''"
  from assms(1) obtain k where k: "k < length ?as" "?as ! k = article"
    by (auto simp: in_set_conv_nth)
  then have mem: "(1 + k, article) \<in> set (List.enumerate 1 ?as)"
    by (auto simp: in_set_enumerate_eq)
  have sub: "set (record_block (1 + k) article) \<subseteq> set (archive_loop ?as)"
    using mem by (auto simp: archive_loop_blocks)
  have lay: "record_block (1 + k) article =
           article_marker (1 + k) (strip (get_text title_elem)) # metadata_lines article @
           [content_marker] @ content_lines article @ [closing_separator]"
    using assms(2) by (rule record_block_layout)
  have "article_marker (1 + k) (strip (get_text title_elem)) \<in> set (record_block (1 + k) article)"
    by (subst lay) simp
  with sub lay show ?thesis by blast
qed

text \<open>
  The marker of the container of \<open>soup_empty_content\<close> is in the output.
\<close>

theorem C4_witness:
  "article_marker 1 (str ''T'') \<in> set (archive_loop (tag_find_all soup_empty_content ''article''))"
proof -
  have a: "article_empty_content \<in> set (tag_find_all soup_empty_content ''article'')"
    by (simp add: tag_find_all_def soup_empty_content_def article_empty_content_def)
  have t: "tag_find article_empty_content ''h2'' ''entry-title'' =
      Some (Tag ''h2'' [''entry-title''] [] [NavigableString (str ''T'')])"
    by (simp add: tag_find_def article_empty_content_def)
  have l: "archive_loop (tag_find_all soup_empty_content ''article'') =
      [article_marker 1 (str ''T''), content_marker, [], closing_separator]"
    by (simp add: eval_soup soup_empty_content_def article_empty_content_def)
  from C4_titled_container_is_emitted [OF a t] show ?thesis
    by (simp add: l)
qed

subsection \<open>C5: idempotence\<close>

text \<open>
  The claim, as stated, fails on \<^verbatim>\<open>&amp;amp;\<close>: the first pass decodes it to
  \<^verbatim>\<open>&amp;\<close>, which is an entity code again, and the second pass decodes that to \<^verbatim>\<open>&\<close>.
\<close>

theorem C5_counterexample:
  "clean_text (str ''&amp;amp;'') = str ''&amp;'' \<and>
   clean_text (clean_text (str ''&amp;amp;'')) = str ''&'' \<and>
   clean_text (clean_text (str ''&amp;amp;'')) \<noteq> clean_text (str ''&amp;amp;'')"
proof -
  have "str ''&'' \<noteq> str ''&amp;''" by (simp add: str_def)
  then show ?thesis by (simp add: clean_text_amp_amp clean_text_amp)
qed

text \<open>
  C5, amended: a second pass changes nothing when the result of the first is plain:
  its only whitespace are single blanks between other characters, and it holds none of
  the entity codes and none of the literal texts with which the boilerplate and markup
  patterns begin.
\<close>

theorem C5_idempotent_on_plain_results:
  "plain (clean_text x) \<Longrightarrow> clean_text (clean_text x) = clean_text x"
  by (rule clean_text_plain)

text \<open>
  The text \<^verbatim>\<open>a&nbsp;&nbsp;b\<close> is cleaned to \<^verbatim>\<open>a b\<close>, which is plain.
\<close>

theorem C5_witness:
  "plain (clean_text (str ''a&nbsp;&nbsp;b'')) \<and>
   clean_text (clean_text (str ''a&nbsp;&nbsp;b'')) = clean_text (str ''a&nbsp;&nbsp;b'')"
proof -
  have e: "remove_html_entities (str ''a&nbsp;&nbsp;b'') = str ''a  b''"
    by (simp add: remove_html_entities_def Let_def str_def eval_replace)
  have n: "normalize_whitespace (str ''a  b'') = str ''a b''"
    by (simp add: normalize_whitespace_def str_def isspace_def eval_sub)
  have s: "single_spaced True (str ''a b'')" by (simp add: str_def isspace_def)
  have a: "free_of anchors (str ''a b'')" by (simp add: free_of_def anchors_def str_def)
  have c: "free_of entity_codes (str ''a b'')" by (simp add: free_of_def entity_codes_def str_def)
  have "str ''a&nbsp;&nbsp;b'' \<noteq> []" by (simp add: str_def)
  then have r: "clean_text (str ''a&nbsp;&nbsp;b'') = str ''a b''"
    using clean_text_after_whitespace [of "str ''a&nbsp;&nbsp;b''"] s a by (simp add: e n)
  have p: "plain (clean_text (str ''a&nbsp;&nbsp;b''))"
    unfolding r by (simp add: plain_def s a c)
  from p C5_idempotent_on_plain_results [OF p] show ?thesis by simp
qed

subsection \<open>C6: the title of a record\<close>

text \<open>
  The first half of the claim, as stated, fails on \<open>soup_blank_title\<close>: the title
  element of its container holds two blanks, \<^verbatim>\<open>if not title_elem\<close> is false for an
  element that is there, and the record is emitted with the empty title.
\<close>

theorem C6_counterexample:
  "tag_find article_blank_title ''h2'' ''entry-title'' =
     Some (Tag ''h2'' [''entry-title''] [] [NavigableString (str ''  '')]) \<and>
   extract_articles_from_archive soup_blank_title =
     join [10] [article_marker 1 [], content_marker, closing_separator]"
  by (simp add: eval_soup soup_blank_title_def article_blank_title_def)

text \<open>
  C6, amended: the title of an emitted record is the text of the title element of its
  container with the whitespace at its ends removed, which can be empty; a container
  whose title locator yields no element is skipped entirely. The pass of the loop
  leaves \<^verbatim>\<open>articles_text\<close> as it was, and the output for a list of containers is the
  output for those before the skipped one followed by the blocks of those after it,
  with nothing in between (the numbers of those after it count the skipped one).
\<close>

theorem C6_title_is_trimmed_element_text:
  "(tag_find article ''h2'' ''entry-title'' = None \<longrightarrow>
      archive_step i article articles_text = articles_text \<and>
      archive_loop (before_it @ article # after_it) =
        archive_loop before_it @
        concat (map (\<lambda>(j, a). record_block j a)
          (List.enumerate (length before_it + 2) after_it))) \<and>
   (\<forall>title_elem. tag_find article ''h2'' ''entry-title'' = Some title_elem \<longrightarrow>
      (\<exists>lines. archive_step i article articles_text =
         articles_text @ article_marker i (strip (get_text title_elem)) # lines))"
proof (intro conjI impI allI)
  assume n: "tag_find article ''h2'' ''entry-title'' = None"
  then show "archive_step i article articles_text = articles_text"
    by (simp add: archive_step_def)
  from n have "record_block (Suc (length before_it)) article = []"
    by (rule record_block_untitled)
  then show "archive_loop (before_it @ article # after_it) =
        archive_loop before_it @
        concat (map (\<lambda>(j, a). record_block j a)
          (List.enumerate (length before_it + 2) after_it))"
    by (simp add: archive_loop_blocks enumerate_append_eq)
next
  fix title_elem
  assume t: "tag_find article ''h2'' ''entry-title'' = Some title_elem"
  have "archive_step i article articles_text = articles_text @ record_block i article"
    unfolding record_block_def by (rule archive_step_append)
  with t show "\<exists>lines. archive_step i article articles_text =
         articles_text @ article_marker i (strip (get_text title_elem)) # lines"
    by (simp add: record_block_layout)
qed

text \<open>
  A container without title element adds nothing; one with a blank title element after
  it gives the only record, with the empty title.
\<close>

theorem C6_witness:
  "archive_step 7 (Tag ''article'' [] [] []) [str ''x''] = [str ''x''] \<and>
   archive_loop ([] @ Tag ''article'' [] [] [] # [article_blank_title]) =
     [article_marker 2 [], content_marker, closing_separator]"
proof -
  have n: "tag_find (Tag ''article'' [] [] []) ''h2'' ''entry-title'' = None"
    by (simp add: tag_find_def)
  have b: "record_block 2 article_blank_title =
      [article_marker 2 [], content_marker, closing_separator]"
    by (simp add: record_block_def archive_step_def tag_find_def article_blank_title_def
        strip_def str_def isspace_def)
  have e: "archive_loop [] = []" by (simp add: archive_loop_def)
  show ?thesis
    using C6_title_is_trimmed_element_text
      [of "Tag ''article'' [] [] []" 7 "[str ''x'']" "[]" "[article_blank_title]"] n b e
    by (simp add: numeral_2_eq_2)
qed

subsection \<open>C7: the title resolver and the author resolver\<close>

text \<open>
  C7 holds of \<^verbatim>\<open>_extract_title\<close> (it is the resolver of the specification, by
  \<open>resolvers_characterised\<close>) and does not hold of \<^verbatim>\<open>_extract_author\<close>. On
  \<open>soup_authors\<close> the first candidate locates an element without text and
  \<^verbatim>\<open>_extract_author\<close> returns that empty text, where the resolver of the specification
  passes on to the second candidate and returns \<^verbatim>\<open>Ana\<close>. The method tests its
  \<^verbatim>\<open>content\<close> attribute for emptiness and has the fallback \<^verbatim>\<open>No author found\<close>, but no
  test on the text; \<^verbatim>\<open>_extract_title\<close> has that test, and on \<open>soup_titles\<close>, a document
  of the same shape, it passes over the blank first element and returns \<^verbatim>\<open>Hi\<close>.
\<close>

theorem C7_author_returns_blank_text:
  "extract_author soup_authors = [] \<and>
   spec_resolve (select_one soup_authors) author_selectors get_text (str ''No author found'') =
     str ''Ana'' \<and>
   extract_title soup_titles = str ''Hi''"
proof (intro conjI)
  show "extract_author soup_authors = []"
    by (simp add: extract_author_def author_selectors_def select_one_def soup_authors_def
        strip_def)
  have located: "List.map_filter (select_one soup_authors) author_selectors =
      [Tag ''span'' [''author'', ''vcard''] [] [],
       Tag ''div'' [''entry-author''] [] [NavigableString (str ''Ana'')],
       Tag ''span'' [''author'', ''vcard''] [] []]"
    by (simp add: author_selectors_def select_one_def soup_authors_def List.map_filter_simps)
  show "spec_resolve (select_one soup_authors) author_selectors get_text
      (str ''No author found'') = str ''Ana''"
    unfolding spec_resolve_def located by (simp add: strip_def str_def isspace_def)
  have "spec_resolve (select_one soup_titles) title_selectors get_text (str ''No title found'') =
      str ''Hi''"
    by (simp add: title_selectors_def select_one_def soup_titles_def spec_resolve_def
        List.map_filter_simps strip_def str_def isspace_def)
  then show "extract_title soup_titles = str ''Hi''"
    using resolvers_characterised [of soup_titles] by simp
qed

subsection \<open>C8: the two variants of the result\<close>

text \<open>
  C8: whatever the request, the status check and the parser do, the method returns a
  dictionary (the model is a total function: the \<^verbatim>\<open>try\<close> block holds every statement that
  can raise, and \<^verbatim>\<open>except Exception\<close> turns what is raised into a result). A failure of the
  request, of the status check or of the parser gives the key \<^verbatim>\<open>error\<close> with the
  description of the failure; success of the three gives \<^verbatim>\<open>content\<close> and \<^verbatim>\<open>word_count\<close>,
  the count of the words of the content. The keys are either \<^verbatim>\<open>content\<close>, \<^verbatim>\<open>word_count\<close>
  and \<^verbatim>\<open>extraction_date\<close>, or \<^verbatim>\<open>url\<close>, \<^verbatim>\<open>error\<close> and \<^verbatim>\<open>extraction_date\<close>: never both groups
  and never neither, and \<^verbatim>\<open>extraction_date\<close> is there in both.
\<close>

theorem C8_exactly_one_variant:
  fixes e :: env and year month :: int
  defines "url \<equiv> base_url year month"
  defines "r \<equiv> extract_from_unam_global e year month"
  shows "(\<forall>ex. session_get e url = Inl ex \<longrightarrow> r ''error'' = Some (PStr (description ex))) \<and>
    (\<forall>resp ex. session_get e url = Inr resp \<and> status_error resp = Some ex \<longrightarrow>
       r ''error'' = Some (PStr (description ex))) \<and>
    (\<forall>resp ex. session_get e url = Inr resp \<and> status_error resp = None \<and>
       BeautifulSoup e (content resp) = Inl ex \<longrightarrow>
       r ''error'' = Some (PStr (description ex))) \<and>
    (\<forall>resp soup. session_get e url = Inr resp \<and> status_error resp = None \<and>
       BeautifulSoup e (content resp) = Inr soup \<longrightarrow>
       (\<exists>text. r ''content'' = Some (PStr text) \<and>
          r ''word_count'' = Some (PInt (int (length (split text)))))) \<and>
    (dom r = {''content'', ''word_count'', ''extraction_date''} \<or>
     dom r = {''url'', ''error'', ''extraction_date''}) \<and>
    r ''extraction_date'' = Some (PStr (now_isoformat e))"
proof -
  show ?thesis
  proof (cases "obtain_document e url")
    case (Inl ex)
    then have r: "r = [''url'' \<mapsto> PStr url, ''error'' \<mapsto> PStr (description ex),
        ''extraction_date'' \<mapsto> PStr (now_isoformat e)]"
      by (simp add: r_def url_def extract_from_unam_global_def Let_def)
    have d: "dom r = {''url'', ''error'', ''extraction_date''}"
      unfolding r by auto
    from Inl show ?thesis
      unfolding d unfolding r
      by (auto simp: obtain_document_def split: sum.splits option.splits)
  next
    case (Inr soup)
    define body where
      "body = (if strip (extract_articles_from_archive soup) \<noteq> []
               then extract_articles_from_archive soup else [])"
    from Inr have r: "r = [''content'' \<mapsto> PStr body,
        ''word_count'' \<mapsto> PInt (int (length (split body))),
        ''extraction_date'' \<mapsto> PStr (now_isoformat e)]"
      by (simp add: r_def url_def extract_from_unam_global_def Let_def body_def)
    have d: "dom r = {''content'', ''word_count'', ''extraction_date''}"
      unfolding r by auto
    from Inr show ?thesis
      unfolding d unfolding r
      by (auto simp: obtain_document_def split: sum.splits option.splits)
  qed
qed

text \<open>
  The scenario of the specification: the request for the period (2025, 13) fails.
\<close>

theorem C8_witness:
  "extract_from_unam_global env_down 2025 13 ''error'' = Some (PStr (str ''timeout'')) \<and>
   extract_from_unam_global env_down 2025 13 ''content'' = None \<and>
   extract_from_unam_global env_down 2025 13 ''extraction_date'' =
     Some (PStr (str ''2025-01-01T00:00:00''))"
proof -
  have c: "extract_from_unam_global env_down 2025 13 ''content'' = None"
    by (simp add: extract_from_unam_global_def obtain_document_def env_down_def Let_def)
  show ?thesis
    using C8_exactly_one_variant [of env_down 2025 13] c
    by (simp add: env_down_def)
qed

subsection \<open>C9: runs of newlines\<close>

text \<open>
  C9: the result of \<open>clean_text\<close> never holds three newlines in a row. After the rule
  for \<^verbatim>\<open>\n\s*\n\<close> no run of whitespace has more than two newlines, and the last two
  steps only delete whitespace.
\<close>

theorem C9_no_three_newlines: "\<not> sublist [10, 10, 10] (clean_text x)"
  using clean_text_ws_ok by (rule ws_ok_no_three_newlines)

text \<open>
  An input with three paragraph tags in a row, each of which becomes a newline.
\<close>

theorem C9_witness:
  "\<not> sublist [10, 10, 10] (clean_text (str ''a<p><p><p>b''))"
  by (rule C9_no_three_newlines)

subsection \<open>C10: a document without records\<close>

text \<open>
  C10: when the document is obtained and none of its record containers has a title
  element (also when it has no container at all), the decomposer returns the empty
  text and the method returns the content variant, with the empty content and the
  word count 0, and no \<^verbatim>\<open>error\<close> key.
\<close>

theorem C10_empty_archive_is_content:
  assumes "obtain_document e (base_url year month) = Inr soup"
    and "\<forall>article\<in>set (tag_find_all soup ''article'').
           tag_find article ''h2'' ''entry-title'' = None"
  shows "extract_articles_from_archive soup = [] \<and>
    extract_from_unam_global e year month ''content'' = Some (PStr []) \<and>
    extract_from_unam_global e year month ''word_count'' = Some (PInt 0) \<and>
    extract_from_unam_global e year month ''error'' = None"
proof -
  have "concat (map (\<lambda>(i, article). record_block i article)
      (List.enumerate 1 (tag_find_all soup ''article''))) = []"
    using assms(2) by (auto simp: in_set_enumerate_eq record_block_untitled)
  then have a: "extract_articles_from_archive soup = []"
    by (simp only: extract_articles_blocks join.simps)
  with assms(1) show ?thesis
    by (simp add: extract_from_unam_global_def Let_def strip_def split_def)
qed

text \<open>
  The document of \<open>env_untitled\<close> has one container, without title.
\<close>

theorem C10_witness:
  "extract_articles_from_archive soup_untitled = [] \<and>
   extract_from_unam_global env_untitled 2020 1 ''content'' = Some (PStr []) \<and>
   extract_from_unam_global env_untitled 2020 1 ''word_count'' = Some (PInt 0) \<and>
   extract_from_unam_global env_untitled 2020 1 ''error'' = None"
proof -
  have o: "obtain_document env_untitled (base_url 2020 1) = Inr soup_untitled"
    by (simp add: obtain_document_def env_untitled_def)
  have u: "\<forall>article\<in>set (tag_find_all soup_untitled ''article'').
           tag_find article ''h2'' ''entry-title'' = None"
    by (simp add: tag_find_all_def soup_untitled_def tag_find_def)
  from C10_empty_archive_is_content [OF o u] show ?thesis .
qed

end
